theory Spec2Isabelle
  imports Complex_Main "HOL-Library.Log_Nat" "HOL-Library.Multiset"
begin

section \<open>Python values used by the two scripts\<close>

text \<open>
  The scripts \<^verbatim>\<open>scripts/generate_data.py\<close> and
  \<^verbatim>\<open>scripts/fetch_spotify_metadata.py\<close> work on a list of play events read from a
  JSON file. Every Python exception that the modelled code can raise is a value of
  \<open>py_error\<close>; a function that may raise returns \<open>py_error + 'a\<close>.
\<close>

datatype py_error =
  TypeError | ValueError | ZeroDivisionError | OverflowError | IndexError | FileNotFoundError

text \<open>
  A key of a JSON object is absent, present with \<^verbatim>\<open>null\<close>, or present with a value.
  \<^verbatim>\<open>item.get(k)\<close> is \<open>get\<close>, \<^verbatim>\<open>item.get(k, d)\<close> is \<open>get_default\<close>;
  both give \<open>None\<close> for Python's \<^verbatim>\<open>None\<close>.
\<close>

datatype 'a field = Absent | Null | Val 'a

fun get :: "'a field \<Rightarrow> 'a option" where
  "get Absent = None"
| "get Null = None"
| "get (Val v) = Some v"

fun get_default :: "'a field \<Rightarrow> 'a \<Rightarrow> 'a option" where
  "get_default Absent d = Some d"
| "get_default Null d = None"
| "get_default (Val v) d = Some v"

text \<open>Truth value of an optional string: \<^verbatim>\<open>None\<close> and the empty string are false.\<close>

fun truthy :: "string option \<Rightarrow> bool" where
  "truthy None = False"
| "truthy (Some s) = (s \<noteq> [])"

fun truthy_bool :: "bool option \<Rightarrow> bool" where
  "truthy_bool None = False"
| "truthy_bool (Some b) = b"

record event =
  ts :: "string field"
  ms_played :: "int field"
  spotify_track_uri :: "string field"
  master_metadata_track_name :: "string field"
  master_metadata_album_artist_name :: "string field"
  master_metadata_album_album_name :: "string field"
  skipped :: "bool field"
  reason_end :: "string field"

text \<open>A \<^verbatim>\<open>for\<close> loop over a list whose body may raise: the first exception ends the loop.\<close>

fun for_loop :: "('s \<Rightarrow> 'a \<Rightarrow> py_error + 's) \<Rightarrow> 's \<Rightarrow> 'a list \<Rightarrow> py_error + 's" where
  "for_loop body s [] = Inr s"
| "for_loop body s (x # xs) =
     (case body s x of Inl e \<Rightarrow> Inl e | Inr s' \<Rightarrow> for_loop body s' xs)"

text \<open>Sequencing of two steps that may raise.\<close>

fun and_then :: "py_error + 'a \<Rightarrow> ('a \<Rightarrow> py_error + 'b) \<Rightarrow> py_error + 'b" where
  "and_then (Inl e) f = Inl e"
| "and_then (Inr x) f = f x"

text \<open>
  \<^verbatim>\<open>item.get("ms_played", 0)\<close> is \<^verbatim>\<open>None\<close> for a \<^verbatim>\<open>null\<close> field, and adding
  \<^verbatim>\<open>None\<close> to an integer raises \<^verbatim>\<open>TypeError\<close>.
\<close>

definition int_operand :: "int option \<Rightarrow> py_error + int" where
  "int_operand v = (case v of None \<Rightarrow> Inl TypeError | Some n \<Rightarrow> Inr n)"

definition item_ms :: "event \<Rightarrow> py_error + int" where
  "item_ms item = int_operand (get_default (ms_played item) 0)"

definition add_ms :: "int \<Rightarrow> event \<Rightarrow> py_error + int" where
  "add_ms acc item = and_then (item_ms item) (\<lambda>n. Inr (acc + n))"

text \<open>A list comprehension whose element expression may raise.\<close>

fun map_err :: "('a \<Rightarrow> py_error + 'b) \<Rightarrow> 'a list \<Rightarrow> py_error + 'b list" where
  "map_err f [] = Inr []"
| "map_err f (x # xs) =
     and_then (f x) (\<lambda>y. and_then (map_err f xs) (\<lambda>ys. Inr (y # ys)))"

text \<open>\<^verbatim>\<open>if x: s.add(x)\<close> on a set of strings.\<close>

definition add_if_truthy :: "string option \<Rightarrow> string set \<Rightarrow> string set" where
  "add_if_truthy x s = (if truthy x then insert (the x) s else s)"

text \<open>
  A \<^verbatim>\<open>dict\<close> keeps its keys in insertion order, so it is an association list with distinct
  keys. \<open>dict_upd k f d\<close> is \<^verbatim>\<open>m[k] = f(m[k])\<close> on a \<^verbatim>\<open>defaultdict\<close> whose default
  value is \<open>d\<close>: a known key keeps its position, a new key goes to the end.
\<close>

fun dict_upd :: "'k \<Rightarrow> ('v \<Rightarrow> 'v) \<Rightarrow> 'v \<Rightarrow> ('k \<times> 'v) list \<Rightarrow> ('k \<times> 'v) list" where
  "dict_upd k f d [] = [(k, f d)]"
| "dict_upd k f d ((k', v) # kvs) =
     (if k = k' then (k', f v) # kvs else (k', v) # dict_upd k f d kvs)"

text \<open>
  \<^verbatim>\<open>sorted(xs, key=key, reverse=True)\<close> with an integer key. Python's sort is stable also
  when reversed: elements with equal keys keep their order.
\<close>

definition sorted_reverse :: "('a \<Rightarrow> int) \<Rightarrow> 'a list \<Rightarrow> 'a list" where
  "sorted_reverse key xs = sort_key (\<lambda>x. - key x) xs"

text \<open>\<^verbatim>\<open>xs[i]\<close> on a list: a negative index counts from the end.\<close>

definition py_index :: "'a list \<Rightarrow> int \<Rightarrow> py_error + 'a" where
  "py_index xs i =
     (if 0 \<le> i \<and> i < int (length xs) then Inr (xs ! nat i)
      else if i < 0 \<and> - int (length xs) \<le> i then Inr (xs ! nat (int (length xs) + i))
      else Inl IndexError)"

text \<open>\<^verbatim>\<open>str(n)\<close> for an integer, as used by the f-strings.\<close>

fun str_nat :: "nat \<Rightarrow> string" where
  "str_nat n = (if n < 10 then [char_of (48 + n)]
                else str_nat (n div 10) @ [char_of (48 + n mod 10)])"

declare str_nat.simps [simp del]

definition str_int :: "int \<Rightarrow> string" where
  "str_int i = (if i < 0 then CHR ''-'' # str_nat (nat (- i)) else str_nat (nat i))"

section \<open>Floating-point numbers\<close>

text \<open>
  A Python \<^verbatim>\<open>float\<close> is an IEEE 754 binary64 number: a finite value is the rational number
  it denotes, and there are two infinities and NaN. The sign of a zero is not kept: Python
  compares \<^verbatim>\<open>-0.0 == 0.0\<close> as equal and no operation modelled here tells them apart.
\<close>

datatype pyfloat = Fin rat | PInf | NInf | NaN

text \<open>Rounding a rational to the nearest integer, a tie to the even one.\<close>

definition rhe :: "rat \<Rightarrow> int" where
  "rhe q = (let f = \<lfloor>q\<rfloor>; d = q - of_int f
            in if d < 1 / 2 then f else if 1 / 2 < d then f + 1
               else if even f then f else f + 1)"

text \<open>The binary exponent of a positive rational: \<open>2 powi flog2 q \<le> q < 2 powi (flog2 q + 1)\<close>.\<close>

definition flog2 :: "rat \<Rightarrow> int" where
  "flog2 q = (if 1 \<le> q then bitlen \<lfloor>q\<rfloor> - 1 else - bitlen (\<lceil>1 / q\<rceil> - 1))"

text \<open>
  \<open>fl q\<close> is the binary64 number nearest to \<open>q\<close> (round to nearest, ties to even): 53
  significant bits, gradual underflow below \<open>2 powi - 1022\<close>, and an infinity when the rounded
  value reaches \<open>2 powi 1024\<close>.
\<close>

definition fl :: "rat \<Rightarrow> pyfloat" where
  "fl q = (if q = 0 then Fin 0 else
     let a = \<bar>q\<bar>; e = max (flog2 a) (- 1022); u = 2 powi (e - 52);
         r = of_int (rhe (a / u)) * u
     in if 2 powi 1024 \<le> r then (if 0 < q then PInf else NInf)
        else Fin (if 0 < q then r else - r))"

text \<open>\<^verbatim>\<open>float(n)\<close> for an integer, as done implicitly by \<^verbatim>\<open>x / n\<close> on a float \<open>x\<close>.\<close>

definition float_of_int :: "int \<Rightarrow> py_error + pyfloat" where
  "float_of_int n = (case fl (of_int n) of Fin r \<Rightarrow> Inr (Fin r) | _ \<Rightarrow> Inl OverflowError)"

text \<open>\<^verbatim>\<open>a / b\<close> on two integers: the correctly rounded quotient.\<close>

definition truediv :: "int \<Rightarrow> int \<Rightarrow> py_error + pyfloat" where
  "truediv a b =
     (if b = 0 then Inl ZeroDivisionError
      else case fl (of_int a / of_int b) of Fin r \<Rightarrow> Inr (Fin r) | _ \<Rightarrow> Inl OverflowError)"

fun fsgn :: "pyfloat \<Rightarrow> int" where
  "fsgn (Fin a) = (if a = 0 then 0 else if 0 < a then 1 else - 1)"
| "fsgn PInf = 1"
| "fsgn NInf = - 1"
| "fsgn NaN = 0"

definition signed_inf :: "int \<Rightarrow> pyfloat" where
  "signed_inf s = (if s = 0 then NaN else if 0 < s then PInf else NInf)"

text \<open>\<^verbatim>\<open>x / y\<close> on two floats.\<close>

fun fdiv :: "pyfloat \<Rightarrow> pyfloat \<Rightarrow> py_error + pyfloat" where
  "fdiv x (Fin b) =
     (if b = 0 then Inl ZeroDivisionError
      else Inr (case x of Fin a \<Rightarrow> fl (a / b) | NaN \<Rightarrow> NaN
                | _ \<Rightarrow> signed_inf (fsgn x * fsgn (Fin b))))"
| "fdiv (Fin a) PInf = Inr (Fin 0)"
| "fdiv (Fin a) NInf = Inr (Fin 0)"
| "fdiv x y = Inr NaN"

text \<open>\<^verbatim>\<open>x * y\<close> and \<^verbatim>\<open>x - y\<close> on two floats; neither raises.\<close>

fun fmul :: "pyfloat \<Rightarrow> pyfloat \<Rightarrow> pyfloat" where
  "fmul (Fin a) (Fin b) = fl (a * b)"
| "fmul NaN y = NaN"
| "fmul x NaN = NaN"
| "fmul x y = signed_inf (fsgn x * fsgn y)"

fun fsub :: "pyfloat \<Rightarrow> pyfloat \<Rightarrow> pyfloat" where
  "fsub (Fin a) (Fin b) = fl (a - b)"
| "fsub NaN y = NaN"
| "fsub x NaN = NaN"
| "fsub PInf PInf = NaN"
| "fsub NInf NInf = NaN"
| "fsub PInf y = PInf"
| "fsub NInf y = NInf"
| "fsub x PInf = NInf"
| "fsub x NInf = PInf"

text \<open>\<^verbatim>\<open>x < y\<close> on floats: false as soon as one side is NaN.\<close>

fun flt :: "pyfloat \<Rightarrow> pyfloat \<Rightarrow> bool" where
  "flt (Fin a) (Fin b) = (a < b)"
| "flt NInf (Fin b) = True"
| "flt NInf PInf = True"
| "flt (Fin a) PInf = True"
| "flt x y = False"

text \<open>
  \<^verbatim>\<open>round(x)\<close> gives an integer and raises on an infinity or NaN; \<^verbatim>\<open>round(x, n)\<close> gives
  the float nearest to the decimal rounding of \<open>x\<close> to \<open>n\<close> places, and leaves an infinity
  or NaN as it is.
\<close>

fun round0 :: "pyfloat \<Rightarrow> py_error + int" where
  "round0 (Fin q) = Inr (rhe q)"
| "round0 NaN = Inl ValueError"
| "round0 x = Inl OverflowError"

fun round_nd :: "pyfloat \<Rightarrow> nat \<Rightarrow> pyfloat" where
  "round_nd (Fin q) n = fl (of_int (rhe (q * 10 ^ n)) / 10 ^ n)"
| "round_nd x n = x"

text \<open>The three conversions of a millisecond count that the reports use.\<close>

definition round_div :: "int \<Rightarrow> int \<Rightarrow> py_error + int" where
  "round_div a b = and_then (truediv a b) round0"

definition round_div_nd :: "int \<Rightarrow> int \<Rightarrow> nat \<Rightarrow> py_error + pyfloat" where
  "round_div_nd a b n = and_then (truediv a b) (\<lambda>x. Inr (round_nd x n))"

section \<open>Time zone conversion\<close>

text \<open>
  \<^verbatim>\<open>utc_to_pacific\<close> parses an ISO 8601 timestamp and converts it to Pacific time with the
  standard library's \<^verbatim>\<open>datetime\<close> and \<^verbatim>\<open>zoneinfo\<close>. The conversion is a parameter
  of every function that uses it: it gives the civil fields of the converted instant, or
  raises on a string it cannot parse.
\<close>

record datetime =
  dt_year :: int
  dt_month :: int
  dt_day :: int
  dt_hour :: int
  dt_weekday :: int

type_synonym tzconv = "string \<Rightarrow> py_error + datetime"

section \<open>Peak hours\<close>

record peak_hours =
  peak_hour :: int
  top_hours :: "int list"
  description :: string

definition peak_body :: "tzconv \<Rightarrow> (int \<times> int) list \<Rightarrow> event \<Rightarrow> py_error + (int \<times> int) list" where
  "peak_body utc_to_pacific hours item =
     (case get (ts item) of
        None \<Rightarrow> Inr hours
      | Some t \<Rightarrow>
          if t \<noteq> [] then
            (case utc_to_pacific t of
               Inl e \<Rightarrow> Inl e
             | Inr dt_pacific \<Rightarrow> Inr (dict_upd (dt_hour dt_pacific) (\<lambda>c. c + 1) 0 hours))
          else Inr hours)"

text \<open>\<^verbatim>\<open>min(xs)\<close> and \<^verbatim>\<open>max(xs)\<close> raise \<^verbatim>\<open>ValueError\<close> on an empty list.\<close>

definition py_min :: "int list \<Rightarrow> py_error + int" where
  "py_min xs = (case xs of [] \<Rightarrow> Inl ValueError | x # rest \<Rightarrow> Inr (fold min rest x))"

definition py_max :: "int list \<Rightarrow> py_error + int" where
  "py_max xs = (case xs of [] \<Rightarrow> Inl ValueError | x # rest \<Rightarrow> Inr (fold max rest x))"

definition find_peak_hours :: "tzconv \<Rightarrow> event list \<Rightarrow> py_error + peak_hours" where
  "find_peak_hours utc_to_pacific data =
     and_then (for_loop (peak_body utc_to_pacific) [] data) (\<lambda>hours.
       let sorted_hours = sorted_reverse snd hours;
           peak = (case sorted_hours of [] \<Rightarrow> 0 | h # _ \<Rightarrow> fst h);
           top = map fst (take 5 sorted_hours)
       in and_then (py_min top) (\<lambda>lo.
          and_then (py_max top) (\<lambda>hi.
            Inr \<lparr>peak_hour = peak, top_hours = sort top,
                 description =
                   CHR ''M'' # CHR 0xE1 # ''s activo entre las '' @ str_int lo
                     @ '':00 y '' @ str_int hi @ '':00''\<rparr>)))"

section \<open>Overview\<close>

record overview =
  ov_total_plays :: int
  ov_total_minutes :: int
  ov_total_hours :: pyfloat
  ov_total_days :: pyfloat
  ov_unique_artists :: int
  ov_unique_tracks :: int

definition overview_body :: "event \<Rightarrow> string set \<times> string set \<Rightarrow> string set \<times> string set" where
  "overview_body item st =
     (add_if_truthy (get (master_metadata_album_artist_name item)) (fst st),
      add_if_truthy (get (spotify_track_uri item)) (snd st))"

definition calculate_overview :: "event list \<Rightarrow> py_error + overview" where
  "calculate_overview data =
     and_then (for_loop add_ms 0 data) (\<lambda>total_ms.
       let st = fold overview_body data ({}, {})
       in and_then (round_div total_ms 60000) (\<lambda>minutes.
          and_then (round_div_nd total_ms 3600000 1) (\<lambda>hours.
          and_then (round_div_nd total_ms 86400000 1) (\<lambda>days.
            Inr \<lparr>ov_total_plays = int (length data),
                 ov_total_minutes = minutes,
                 ov_total_hours = hours,
                 ov_total_days = days,
                 ov_unique_artists = int (card (fst st)),
                 ov_unique_tracks = int (card (snd st))\<rparr>))))"

section \<open>Top artists and top tracks\<close>

text \<open>\<^verbatim>\<open>round(ms / max_ms * 100)\<close>.\<close>

definition pct_of :: "int \<Rightarrow> int \<Rightarrow> py_error + int" where
  "pct_of m max_ms = and_then (truediv m max_ms) (\<lambda>x. round0 (fmul x (Fin 100)))"

record artist_stats =
  as_ms :: int
  as_plays :: int

record artist_row =
  ar_artist :: string
  ar_minutes :: int
  ar_hours :: pyfloat
  ar_plays :: int
  ar_pct :: int

definition artist_body ::
  "(string \<times> artist_stats) list \<Rightarrow> event \<Rightarrow> py_error + (string \<times> artist_stats) list" where
  "artist_body artist_time item =
     (let artist = get (master_metadata_album_artist_name item)
      in if truthy artist then
           and_then (item_ms item) (\<lambda>n.
             Inr (dict_upd (the artist)
                    (\<lambda>st. st\<lparr>as_ms := as_ms st + n, as_plays := as_plays st + 1\<rparr>)
                    \<lparr>as_ms = 0, as_plays = 0\<rparr> artist_time))
         else Inr artist_time)"

text \<open>The ranking \<^verbatim>\<open>top\<close>: the groups sorted by summed milliseconds, cut at \<open>limit\<close>.\<close>

definition top_artists :: "event list \<Rightarrow> nat \<Rightarrow> py_error + (string \<times> artist_stats) list" where
  "top_artists data limit =
     and_then (for_loop artist_body [] data) (\<lambda>artist_time.
       Inr (take limit (sorted_reverse (\<lambda>x. as_ms (snd x)) artist_time)))"

definition artist_entry :: "int \<Rightarrow> string \<times> artist_stats \<Rightarrow> py_error + artist_row" where
  "artist_entry max_ms x =
     and_then (round_div (as_ms (snd x)) 60000) (\<lambda>minutes.
     and_then (round_div_nd (as_ms (snd x)) 3600000 1) (\<lambda>hours.
     and_then (pct_of (as_ms (snd x)) max_ms) (\<lambda>pct.
       Inr \<lparr>ar_artist = fst x, ar_minutes = minutes, ar_hours = hours,
            ar_plays = as_plays (snd x), ar_pct = pct\<rparr>)))"

definition calculate_top_artists :: "event list \<Rightarrow> nat \<Rightarrow> py_error + artist_row list" where
  "calculate_top_artists data limit =
     and_then (top_artists data limit) (\<lambda>top.
       let max_ms = (case top of [] \<Rightarrow> 1 | t # _ \<Rightarrow> as_ms (snd t))
       in map_err (artist_entry max_ms) top)"

record track_stats =
  ts_ms :: int
  ts_plays :: int
  ts_artist :: string
  ts_name :: string

record track_row =
  tr_track :: string
  tr_artist :: string
  tr_minutes :: int
  tr_hours :: pyfloat
  tr_plays :: int
  tr_pct :: int

text \<open>The dictionary key \<^verbatim>\<open>f"{track}|||{artist}"\<close>.\<close>

definition track_key :: "string \<Rightarrow> string \<Rightarrow> string" where
  "track_key track artist = track @ ''|||'' @ artist"

definition track_body ::
  "(string \<times> track_stats) list \<Rightarrow> event \<Rightarrow> py_error + (string \<times> track_stats) list" where
  "track_body track_time item =
     (let track = get (master_metadata_track_name item);
          artist = get (master_metadata_album_artist_name item)
      in if truthy track \<and> truthy artist then
           and_then (item_ms item) (\<lambda>n.
             Inr (dict_upd (track_key (the track) (the artist))
                    (\<lambda>st. st\<lparr>ts_ms := ts_ms st + n, ts_plays := ts_plays st + 1,
                             ts_artist := the artist, ts_name := the track\<rparr>)
                    \<lparr>ts_ms = 0, ts_plays = 0, ts_artist = [], ts_name = []\<rparr> track_time))
         else Inr track_time)"

definition top_tracks :: "event list \<Rightarrow> nat \<Rightarrow> py_error + (string \<times> track_stats) list" where
  "top_tracks data limit =
     and_then (for_loop track_body [] data) (\<lambda>track_time.
       Inr (take limit (sorted_reverse (\<lambda>x. ts_ms (snd x)) track_time)))"

definition track_entry :: "int \<Rightarrow> string \<times> track_stats \<Rightarrow> py_error + track_row" where
  "track_entry max_ms x =
     and_then (round_div (ts_ms (snd x)) 60000) (\<lambda>minutes.
     and_then (round_div_nd (ts_ms (snd x)) 3600000 1) (\<lambda>hours.
     and_then (pct_of (ts_ms (snd x)) max_ms) (\<lambda>pct.
       Inr \<lparr>tr_track = ts_name (snd x), tr_artist = ts_artist (snd x),
            tr_minutes = minutes, tr_hours = hours,
            tr_plays = ts_plays (snd x), tr_pct = pct\<rparr>)))"

definition calculate_top_tracks :: "event list \<Rightarrow> nat \<Rightarrow> py_error + track_row list" where
  "calculate_top_tracks data limit =
     and_then (top_tracks data limit) (\<lambda>top.
       let max_ms = (case top of [] \<Rightarrow> 1 | t # _ \<Rightarrow> ts_ms (snd t))
       in map_err (track_entry max_ms) top)"

section \<open>Skipped tracks\<close>

record skip_stats =
  ss_total_plays :: int
  ss_skipped :: int
  ss_name :: string
  ss_artist :: string

record skip_row =
  sk_track :: string
  sk_artist :: string
  sk_total_plays :: int
  sk_skipped :: int
  sk_skip_rate :: int

text \<open>\<^verbatim>\<open>skipped or reason_end in ["fwdbtn", "backbtn"]\<close>.\<close>

definition is_skip :: "event \<Rightarrow> bool" where
  "is_skip item =
     (truthy_bool (get_default (skipped item) False)
      \<or> get_default (reason_end item) [] \<in> {Some ''fwdbtn'', Some ''backbtn''})"

definition skip_body :: "event \<Rightarrow> (string \<times> skip_stats) list \<Rightarrow> (string \<times> skip_stats) list" where
  "skip_body item track_stats =
     (let track = get (master_metadata_track_name item);
          artist = get (master_metadata_album_artist_name item)
      in if truthy track \<and> truthy artist then
           dict_upd (track_key (the track) (the artist))
             (\<lambda>st. st\<lparr>ss_total_plays := ss_total_plays st + 1,
                      ss_name := the track, ss_artist := the artist,
                      ss_skipped := (if is_skip item then ss_skipped st + 1 else ss_skipped st)\<rparr>)
             \<lparr>ss_total_plays = 0, ss_skipped = 0, ss_name = [], ss_artist = []\<rparr> track_stats
         else track_stats)"

text \<open>
  The loop over \<^verbatim>\<open>track_stats.items()\<close> that collects the candidates. The literal
  \<^verbatim>\<open>0.3\<close> is the float nearest to three tenths.
\<close>

definition skip_candidate :: "int \<Rightarrow> skip_row list \<Rightarrow> string \<times> skip_stats \<Rightarrow> py_error + skip_row list" where
  "skip_candidate min_plays candidates x =
     (let stats = snd x
      in if min_plays \<le> ss_total_plays stats then
           and_then (truediv (ss_skipped stats) (ss_total_plays stats)) (\<lambda>skip_rate.
             if flt (fl (3 / 10)) skip_rate then
               and_then (round0 (fmul skip_rate (Fin 100))) (\<lambda>pct.
                 Inr (candidates @
                   [\<lparr>sk_track = ss_name stats, sk_artist = ss_artist stats,
                     sk_total_plays = ss_total_plays stats, sk_skipped = ss_skipped stats,
                     sk_skip_rate = pct\<rparr>]))
             else Inr candidates)
         else Inr candidates)"

definition calculate_skipped_tracks :: "event list \<Rightarrow> int \<Rightarrow> nat \<Rightarrow> py_error + skip_row list" where
  "calculate_skipped_tracks data min_plays limit =
     and_then (for_loop (skip_candidate min_plays) [] (fold skip_body data [])) (\<lambda>candidates.
       Inr (take limit (sorted_reverse sk_skip_rate candidates)))"

section \<open>Monthly trend\<close>

text \<open>
  The \<^verbatim>\<open>delta\<close> of the first month is the integer \<open>0\<close>, that of every other month a
  float, so the field holds either. Python compares an integer and a float by their exact
  values.
\<close>

datatype pynum = PInt int | PFloat pyfloat

fun num_value :: "pynum \<Rightarrow> pyfloat" where
  "num_value (PInt i) = Fin (of_int i)"
| "num_value (PFloat x) = x"

definition num_lt :: "pynum \<Rightarrow> pynum \<Rightarrow> bool" where
  "num_lt a b = flt (num_value a) (num_value b)"

text \<open>
  \<^verbatim>\<open>max(xs, key=key)\<close> on a non-empty list \<open>x # xs\<close>: the first element whose key is
  not exceeded, a later element replacing the current one only when its key is greater.
\<close>

definition max_by :: "('a \<Rightarrow> 'k) \<Rightarrow> ('k \<Rightarrow> 'k \<Rightarrow> bool) \<Rightarrow> 'a \<Rightarrow> 'a list \<Rightarrow> 'a" where
  "max_by key lt x xs = fold (\<lambda>y best. if lt (key best) (key y) then y else best) xs x"

record month_stats =
  mo_plays :: int
  mo_ms :: int

record month_base =
  mb_month :: int
  mb_month_name :: string
  mb_plays :: int
  mb_hours :: pyfloat

record month_row =
  mr_month :: int
  mr_month_name :: string
  mr_plays :: int
  mr_hours :: pyfloat
  mr_delta :: pynum
  mr_delta_pct :: int
  mr_is_peak :: bool
  mr_is_inflection :: bool

definition month_names :: "string list" where
  "month_names = [[], ''Ene'', ''Feb'', ''Mar'', ''Abr'', ''May'', ''Jun'',
                  ''Jul'', ''Ago'', ''Sep'', ''Oct'', ''Nov'', ''Dic'']"

definition month_body ::
  "tzconv \<Rightarrow> (int \<times> month_stats) list \<Rightarrow> event \<Rightarrow> py_error + (int \<times> month_stats) list" where
  "month_body utc_to_pacific months item =
     (let t = get (ts item)
      in if truthy t then
           and_then (utc_to_pacific (the t)) (\<lambda>dt_pacific.
           and_then (item_ms item) (\<lambda>n.
             Inr (dict_upd (dt_month dt_pacific)
                    (\<lambda>st. st\<lparr>mo_plays := mo_plays st + 1, mo_ms := mo_ms st + n\<rparr>)
                    \<lparr>mo_plays = 0, mo_ms = 0\<rparr> months)))
         else Inr months)"

definition month_entry :: "int \<times> month_stats \<Rightarrow> py_error + month_base" where
  "month_entry x =
     and_then (py_index month_names (fst x)) (\<lambda>name.
     and_then (round_div_nd (mo_ms (snd x)) 3600000 1) (\<lambda>hours.
       Inr \<lparr>mb_month = fst x, mb_month_name = name,
            mb_plays = mo_plays (snd x), mb_hours = hours\<rparr>))"

text \<open>The \<^verbatim>\<open>else\<close> branch of the delta loop, for a row after the first.\<close>

definition delta_of :: "pyfloat \<Rightarrow> pyfloat \<Rightarrow> py_error + pynum \<times> int" where
  "delta_of prev_hours hours =
     (let delta = round_nd (fsub hours prev_hours) 1
      in if flt (Fin 0) prev_hours then
           and_then (fdiv (fsub hours prev_hours) prev_hours) (\<lambda>q.
           and_then (round0 (fmul q (Fin 100))) (\<lambda>pct.
             Inr (PFloat delta, pct)))
         else Inr (PFloat delta, 0))"

text \<open>
  The loop \<^verbatim>\<open>for i, r in enumerate(result)\<close>; \<open>prev\<close> is \<open>None\<close> at \<open>i = 0\<close> and
  the hours of \<^verbatim>\<open>result[i - 1]\<close> afterwards.
\<close>

fun with_deltas ::
  "pyfloat option \<Rightarrow> month_base list \<Rightarrow> py_error + (month_base \<times> pynum \<times> int) list" where
  "with_deltas prev [] = Inr []"
| "with_deltas prev (r # rs) =
     and_then (case prev of None \<Rightarrow> Inr (PInt 0, 0) | Some p \<Rightarrow> delta_of p (mb_hours r)) (\<lambda>d.
     and_then (with_deltas (Some (mb_hours r)) rs) (\<lambda>rest.
       Inr ((r, d) # rest)))"

definition mark_months :: "(month_base \<times> pynum \<times> int) list \<Rightarrow> month_row list" where
  "mark_months result =
     (case result of
        [] \<Rightarrow> []
      | r # rs \<Rightarrow>
          let max_month = max_by (\<lambda>x. mb_hours (fst x)) flt r rs;
              max_delta_month = max_by (\<lambda>x. fst (snd x)) num_lt r rs
          in map (\<lambda>x. \<lparr>mr_month = mb_month (fst x), mr_month_name = mb_month_name (fst x),
                         mr_plays = mb_plays (fst x), mr_hours = mb_hours (fst x),
                         mr_delta = fst (snd x), mr_delta_pct = snd (snd x),
                         mr_is_peak = (mb_month (fst x) = mb_month (fst max_month)),
                         mr_is_inflection =
                           (mb_month (fst x) = mb_month (fst max_delta_month))\<rparr>) result)"

definition calculate_monthly_trend :: "tzconv \<Rightarrow> event list \<Rightarrow> py_error + month_row list" where
  "calculate_monthly_trend utc_to_pacific data =
     and_then (for_loop (month_body utc_to_pacific) [] data) (\<lambda>months.
     and_then (map_err month_entry (sort_key fst months)) (\<lambda>result.
     and_then (with_deltas None result) (\<lambda>result.
       Inr (mark_months result))))"

section \<open>Weekday against weekend\<close>

record bucket =
  bk_plays :: int
  bk_ms :: int
  bk_artists :: "string set"
  bk_days :: "(int \<times> int \<times> int) set"

record ww_state =
  st_weekday :: bucket
  st_weekend :: bucket
  st_weekday_artists :: "(string \<times> int) list"
  st_weekend_artists :: "(string \<times> int) list"

record ww_side =
  ws_total_hours :: pyfloat
  ws_total_plays :: int
  ws_days_count :: int
  ws_avg_hours_per_day :: pyfloat
  ws_avg_plays_per_day :: pyfloat
  ws_unique_artists :: int
  ws_top_artists :: "(string \<times> int) list"

record weekday_vs_weekend =
  ww_weekday :: ww_side
  ww_weekend :: ww_side

definition empty_bucket :: bucket where
  "empty_bucket = \<lparr>bk_plays = 0, bk_ms = 0, bk_artists = {}, bk_days = {}\<rparr>"

definition bucket_add :: "datetime \<Rightarrow> int \<Rightarrow> string option \<Rightarrow> bucket \<Rightarrow> bucket" where
  "bucket_add dt_pacific n artist b =
     b\<lparr>bk_plays := bk_plays b + 1, bk_ms := bk_ms b + n,
       bk_days := insert (dt_year dt_pacific, dt_month dt_pacific, dt_day dt_pacific) (bk_days b),
       bk_artists := add_if_truthy artist (bk_artists b)\<rparr>"

definition artist_add :: "int \<Rightarrow> string option \<Rightarrow> (string \<times> int) list \<Rightarrow> (string \<times> int) list" where
  "artist_add n artist d = (if truthy artist then dict_upd (the artist) (\<lambda>v. v + n) 0 d else d)"

definition ww_body :: "tzconv \<Rightarrow> ww_state \<Rightarrow> event \<Rightarrow> py_error + ww_state" where
  "ww_body utc_to_pacific st item =
     (let t = get (ts item);
          artist = get (master_metadata_album_artist_name item)
      in if truthy t then
           and_then (utc_to_pacific (the t)) (\<lambda>dt_pacific.
           and_then (item_ms item) (\<lambda>n.
             if 5 \<le> dt_weekday dt_pacific then
               Inr (st\<lparr>st_weekend := bucket_add dt_pacific n artist (st_weekend st),
                       st_weekend_artists := artist_add n artist (st_weekend_artists st)\<rparr>)
             else
               Inr (st\<lparr>st_weekday := bucket_add dt_pacific n artist (st_weekday st),
                       st_weekday_artists := artist_add n artist (st_weekday_artists st)\<rparr>)))
         else Inr st)"

definition top_minutes :: "string \<times> int \<Rightarrow> py_error + string \<times> int" where
  "top_minutes x = and_then (round_div (snd x) 60000) (\<lambda>minutes. Inr (fst x, minutes))"

definition ww_report :: "bucket \<Rightarrow> (string \<times> int) list \<Rightarrow> py_error + ww_side" where
  "ww_report b artists =
     (let days = (if card (bk_days b) = 0 then 1 else int (card (bk_days b)));
          top = take 3 (sorted_reverse snd artists)
      in and_then (round_div_nd (bk_ms b) 3600000 1) (\<lambda>total_hours.
         and_then (truediv (bk_ms b) 3600000) (\<lambda>h.
         and_then (float_of_int days) (\<lambda>d.
         and_then (fdiv h d) (\<lambda>per_day.
         and_then (round_div_nd (bk_plays b) days 1) (\<lambda>avg_plays.
         and_then (map_err top_minutes top) (\<lambda>top_artists.
           Inr \<lparr>ws_total_hours = total_hours, ws_total_plays = bk_plays b,
                ws_days_count = days, ws_avg_hours_per_day = round_nd per_day 2,
                ws_avg_plays_per_day = avg_plays,
                ws_unique_artists = int (card (bk_artists b)),
                ws_top_artists = top_artists\<rparr>)))))))"

definition calculate_weekday_vs_weekend :: "tzconv \<Rightarrow> event list \<Rightarrow> py_error + weekday_vs_weekend" where
  "calculate_weekday_vs_weekend utc_to_pacific data =
     and_then (for_loop (ww_body utc_to_pacific)
                 \<lparr>st_weekday = empty_bucket, st_weekend = empty_bucket,
                  st_weekday_artists = [], st_weekend_artists = []\<rparr> data) (\<lambda>st.
     and_then (ww_report (st_weekday st) (st_weekday_artists st)) (\<lambda>weekday.
     and_then (ww_report (st_weekend st) (st_weekend_artists st)) (\<lambda>weekend.
       Inr \<lparr>ww_weekday = weekday, ww_weekend = weekend\<rparr>)))"

section \<open>Listening-history aggregation\<close>

text \<open>
  \<^verbatim>\<open>s.split(":")\<close>: the pieces of \<open>s\<close> between the separators, never an empty list; and
  \<^verbatim>\<open>s.startswith(p)\<close>.
\<close>

fun split_on :: "char \<Rightarrow> string \<Rightarrow> string list" where
  "split_on c [] = [[]]"
| "split_on c (x # xs) =
     (if x = c then [] # split_on c xs
      else (case split_on c xs of [] \<Rightarrow> [[x]] | w # ws \<Rightarrow> (x # w) # ws))"

definition startswith :: "string \<Rightarrow> string \<Rightarrow> bool" where
  "startswith s p = (take (length p) s = p)"

text \<open>
  The statistics of one track. A name is \<open>None\<close> when the event carries \<^verbatim>\<open>null\<close> for it,
  since \<^verbatim>\<open>item.get(k, "")\<close> then gives \<^verbatim>\<open>None\<close>.
\<close>

record track_agg =
  ta_ms_played :: int
  ta_play_count :: int
  ta_track_name :: "string option"
  ta_artist_name :: "string option"
  ta_album_name :: "string option"

definition track_id_of :: "string \<Rightarrow> string" where
  "track_id_of uri = last (split_on CHR '':'' uri)"

text \<open>The events that the loop does not skip with \<^verbatim>\<open>continue\<close>.\<close>

definition is_track_event :: "event \<Rightarrow> bool" where
  "is_track_event item =
     (let uri = get (spotify_track_uri item)
      in truthy uri \<and> startswith (the uri) ''spotify:track:'')"

definition unique_body ::
  "(string \<times> track_agg) list \<Rightarrow> event \<Rightarrow> py_error + (string \<times> track_agg) list" where
  "unique_body tracks item =
     (if \<not> is_track_event item then Inr tracks
      else
        and_then (item_ms item) (\<lambda>n.
          Inr (dict_upd (track_id_of (the (get (spotify_track_uri item))))
                 (\<lambda>st. st\<lparr>ta_ms_played := ta_ms_played st + n,
                          ta_play_count := ta_play_count st + 1,
                          ta_track_name := get_default (master_metadata_track_name item) [],
                          ta_artist_name := get_default (master_metadata_album_artist_name item) [],
                          ta_album_name := get_default (master_metadata_album_album_name item) []\<rparr>)
                 \<lparr>ta_ms_played = 0, ta_play_count = 0, ta_track_name = Some [],
                  ta_artist_name = Some [], ta_album_name = Some []\<rparr> tracks)))"

definition extract_unique_tracks :: "event list \<Rightarrow> py_error + (string \<times> track_agg) list" where
  "extract_unique_tracks history = for_loop unique_body [] history"

section \<open>Catalog requests\<close>

text \<open>
  The catalog service is outside the repository. A request is what \<^verbatim>\<open>requests.get\<close> is
  called with; a response has a status code and a body, which \<^verbatim>\<open>response.json()\<close>
  parses (or fails to) into an object whose keys map to lists of records. The service is a
  parameter: it answers a request, given the requests sent before it. Every function
  takes the list of requests sent so far and returns it extended by the requests it sent.
\<close>

record 'h request =
  rq_url :: string
  rq_ids :: string
  rq_headers :: 'h

record 'r response =
  status_code :: int
  json :: "py_error + (string \<Rightarrow> 'r list option)"

type_synonym ('h, 'r) service = "'h request list \<Rightarrow> 'h request \<Rightarrow> 'r response"

text \<open>\<^verbatim>\<open>",".join(xs)\<close>.\<close>

fun join_comma :: "string list \<Rightarrow> string" where
  "join_comma [] = []"
| "join_comma [x] = x"
| "join_comma (x # y # ys) = x @ '','' @ join_comma (y # ys)"

definition fetch_batch ::
  "string \<Rightarrow> string \<Rightarrow> ('h, 'r) service \<Rightarrow> string list \<Rightarrow> 'h \<Rightarrow> 'h request list
     \<Rightarrow> (py_error + 'r list) \<times> 'h request list" where
  "fetch_batch url key service ids headers sent =
     (if ids = [] then (Inr [], sent)
      else
        let rq = \<lparr>rq_url = url, rq_ids = join_comma (take 50 ids), rq_headers = headers\<rparr>;
            response = service sent rq
        in if status_code response \<noteq> 200 then (Inr [], sent @ [rq])
           else (and_then (json response)
                   (\<lambda>obj. Inr (case obj key of None \<Rightarrow> [] | Some records \<Rightarrow> records)),
                 sent @ [rq]))"

definition fetch_tracks_batch ::
  "('h, 'r) service \<Rightarrow> string list \<Rightarrow> 'h \<Rightarrow> 'h request list
     \<Rightarrow> (py_error + 'r list) \<times> 'h request list" where
  "fetch_tracks_batch = fetch_batch ''https://api.spotify.com/v1/tracks'' ''tracks''"

definition fetch_artists_batch ::
  "('h, 'r) service \<Rightarrow> string list \<Rightarrow> 'h \<Rightarrow> 'h request list
     \<Rightarrow> (py_error + 'r list) \<times> 'h request list" where
  "fetch_artists_batch = fetch_batch ''https://api.spotify.com/v1/artists'' ''artists''"

text \<open>
  The loop of \<^verbatim>\<open>main\<close> over the identifiers:
  \<^verbatim>\<open>for i in range(0, len(track_ids), 50): batch = track_ids[i:i+50]\<close>, each batch fetched
  and its records appended to \<^verbatim>\<open>all_track_data\<close>. An exception of a batch ends the loop.
\<close>

function batches :: "'a list \<Rightarrow> 'a list list" where
  "batches xs = (if xs = [] then [] else take 50 xs # batches (drop 50 xs))"
  by pat_completeness auto
termination
  by (relation "measure length") auto

declare batches.simps [simp del]

fun fetch_all_tracks ::
  "('h, 'r) service \<Rightarrow> 'h \<Rightarrow> string list list \<Rightarrow> 'r list \<Rightarrow> 'h request list
     \<Rightarrow> (py_error + 'r list) \<times> 'h request list" where
  "fetch_all_tracks service headers [] all_track_data sent = (Inr all_track_data, sent)"
| "fetch_all_tracks service headers (batch # rest) all_track_data sent =
     (case fetch_tracks_batch service batch headers sent of
        (Inl e, sent') \<Rightarrow> (Inl e, sent')
      | (Inr tracks_data, sent') \<Rightarrow>
          fetch_all_tracks service headers rest (all_track_data @ tracks_data) sent')"

section \<open>Heat maps, hourly distribution and special days\<close>

record heat_cell =
  hc_month :: int
  hc_hour :: int
  hc_plays :: int

record heat_cell3 =
  h3_month :: int
  h3_mid :: int
  h3_hour :: int
  h3_plays :: int

text \<open>
  The three heat maps count the events per key; they differ in the key they take from the
  converted timestamp. In the rows of the second one the field \<open>h3_mid\<close> is the weekday,
  in those of the third one the day of the month.
\<close>

definition count_body ::
  "tzconv \<Rightarrow> (datetime \<Rightarrow> 'k) \<Rightarrow> ('k \<times> int) list \<Rightarrow> event \<Rightarrow> py_error + ('k \<times> int) list" where
  "count_body utc_to_pacific key heatmap item =
     (let t = get (ts item)
      in if truthy t then
           and_then (utc_to_pacific (the t)) (\<lambda>dt_pacific.
             Inr (dict_upd (key dt_pacific) (\<lambda>c. c + 1) 0 heatmap))
         else Inr heatmap)"

definition calculate_hourly_heatmap :: "tzconv \<Rightarrow> event list \<Rightarrow> py_error + heat_cell list" where
  "calculate_hourly_heatmap utc_to_pacific data =
     and_then (for_loop (count_body utc_to_pacific (\<lambda>dt. (dt_month dt, dt_hour dt))) [] data)
       (\<lambda>heatmap.
          Inr (map (\<lambda>x. \<lparr>hc_month = fst (fst x), hc_hour = snd (fst x), hc_plays = snd x\<rparr>)
                 heatmap))"

definition calculate_weekday_hour_heatmap :: "tzconv \<Rightarrow> event list \<Rightarrow> py_error + heat_cell3 list" where
  "calculate_weekday_hour_heatmap utc_to_pacific data =
     and_then (for_loop (count_body utc_to_pacific
                           (\<lambda>dt. (dt_month dt, dt_weekday dt, dt_hour dt))) [] data)
       (\<lambda>heatmap.
          Inr (map (\<lambda>x. \<lparr>h3_month = fst (fst x), h3_mid = fst (snd (fst x)),
                           h3_hour = snd (snd (fst x)), h3_plays = snd x\<rparr>) heatmap))"

definition calculate_day_hour_heatmap :: "tzconv \<Rightarrow> event list \<Rightarrow> py_error + heat_cell3 list" where
  "calculate_day_hour_heatmap utc_to_pacific data =
     and_then (for_loop (count_body utc_to_pacific
                           (\<lambda>dt. (dt_month dt, dt_day dt, dt_hour dt))) [] data)
       (\<lambda>heatmap.
          Inr (map (\<lambda>x. \<lparr>h3_month = fst (fst x), h3_mid = fst (snd (fst x)),
                           h3_hour = snd (snd (fst x)), h3_plays = snd x\<rparr>) heatmap))"

text \<open>Plays and milliseconds per key, as the hourly distribution and the special days keep them.\<close>

record time_stats =
  tm_plays :: int
  tm_ms :: int

definition time_body ::
  "tzconv \<Rightarrow> (datetime \<Rightarrow> 'k) \<Rightarrow> ('k \<times> time_stats) list \<Rightarrow> event
     \<Rightarrow> py_error + ('k \<times> time_stats) list" where
  "time_body utc_to_pacific key stats item =
     (let t = get (ts item)
      in if truthy t then
           and_then (utc_to_pacific (the t)) (\<lambda>dt_pacific.
           and_then (item_ms item) (\<lambda>n.
             Inr (dict_upd (key dt_pacific)
                    (\<lambda>st. st\<lparr>tm_plays := tm_plays st + 1, tm_ms := tm_ms st + n\<rparr>)
                    \<lparr>tm_plays = 0, tm_ms = 0\<rparr> stats)))
         else Inr stats)"

record hour_row =
  hr_hour :: int
  hr_plays :: int
  hr_minutes :: int

definition hour_entry :: "int \<times> time_stats \<Rightarrow> py_error + hour_row" where
  "hour_entry x =
     and_then (round_div (tm_ms (snd x)) 60000) (\<lambda>minutes.
       Inr \<lparr>hr_hour = fst x, hr_plays = tm_plays (snd x), hr_minutes = minutes\<rparr>)"

definition calculate_hourly_distribution :: "tzconv \<Rightarrow> event list \<Rightarrow> py_error + hour_row list" where
  "calculate_hourly_distribution utc_to_pacific data =
     and_then (for_loop (time_body utc_to_pacific dt_hour) [] data) (\<lambda>hours.
       map_err hour_entry (sort_key fst hours))"

record special_day =
  sd_date :: string
  sd_plays :: int
  sd_minutes :: int

definition BIRTHDAY :: "int \<times> int" where
  "BIRTHDAY = (4, 6)"

definition MEXICAN_HOLIDAYS :: "((int \<times> int) \<times> string) list" where
  "MEXICAN_HOLIDAYS =
     [((1, 1), CHR ''A'' # CHR 0xF1 # ''o Nuevo''),
      ((2, 5), CHR ''D'' # CHR 0xED # ''a de la Constituci'' @ CHR 0xF3 # ''n''),
      ((3, 21), ''Natalicio de Benito Ju'' @ CHR 0xE1 # ''rez''),
      ((5, 1), CHR ''D'' # CHR 0xED # ''a del Trabajo''),
      ((5, 5), ''Cinco de Mayo''),
      ((9, 16), CHR ''D'' # CHR 0xED # ''a de la Independencia''),
      ((11, 2), CHR ''D'' # CHR 0xED # ''a de los Muertos''),
      ((11, 20), ''Revoluci'' @ CHR 0xF3 # ''n Mexicana''),
      ((12, 25), ''Navidad'')]"

text \<open>
  One step of the loop over the holidays: a date that occurs in the data adds an entry
  under the key \<^verbatim>\<open>f"mx_{date[0]}_{date[1]}"\<close>.
\<close>

definition holiday_body ::
  "((int \<times> int) \<times> time_stats) list \<Rightarrow> (string \<times> special_day) list \<Rightarrow> (int \<times> int) \<times> string
     \<Rightarrow> py_error + (string \<times> special_day) list" where
  "holiday_body daily_stats special h =
     (case map_of daily_stats (fst h) of
        None \<Rightarrow> Inr special
      | Some st \<Rightarrow>
          and_then (round_div (tm_ms st) 60000) (\<lambda>minutes.
            Inr (special @
              [(''mx_'' @ str_int (fst (fst h)) @ ''_'' @ str_int (snd (fst h)),
                \<lparr>sd_date = snd h, sd_plays = tm_plays st, sd_minutes = minutes\<rparr>)])))"

definition calculate_special_days :: "tzconv \<Rightarrow> event list \<Rightarrow> py_error + (string \<times> special_day) list" where
  "calculate_special_days utc_to_pacific data =
     and_then (for_loop (time_body utc_to_pacific (\<lambda>dt. (dt_month dt, dt_day dt))) [] data)
       (\<lambda>daily_stats.
     and_then (case map_of daily_stats BIRTHDAY of
                 None \<Rightarrow> Inr []
               | Some st \<Rightarrow>
                   and_then (round_div (tm_ms st) 60000) (\<lambda>minutes.
                     Inr [(''birthday'',
                           \<lparr>sd_date = ''6 de abril'', sd_plays = tm_plays st,
                            sd_minutes = minutes\<rparr>)])) (\<lambda>special.
       for_loop (holiday_body daily_stats) special MEXICAN_HOLIDAYS))"

section \<open>The metrics job\<close>

record metadata =
  md_timezone :: string
  md_data_source :: string
  md_skip_definition :: string
  md_min_plays_for_skip_rate :: int

record dashboard =
  db_overview :: overview
  db_top_artists :: "artist_row list"
  db_top_tracks :: "track_row list"
  db_hourly_heatmap :: "heat_cell list"
  db_weekday_hour_heatmap :: "heat_cell3 list"
  db_day_hour_heatmap :: "heat_cell3 list"
  db_hourly_distribution :: "hour_row list"
  db_weekday_vs_weekend :: weekday_vs_weekend
  db_skipped_tracks :: "skip_row list"
  db_monthly_trend :: "month_row list"
  db_special_days :: "(string \<times> special_day) list"
  db_peak_hours :: peak_hours
  db_metadata :: metadata

definition fixed_metadata :: metadata where
  "fixed_metadata =
     \<lparr>md_timezone = ''America/Los_Angeles (Pacific Time)'',
      md_data_source = ''Spotify Extended Streaming History'',
      md_skip_definition =
        ''Canci'' @ CHR 0xF3 # ''n marcada como 'skipped' o terminada con 'fwdbtn'/'backbtn'' @ [CHR 0x27],
      md_min_plays_for_skip_rate = 10\<rparr>"

text \<open>
  The part of \<^verbatim>\<open>main\<close> between reading and writing: \<^verbatim>\<open>find_peak_hours\<close> is called first,
  then the entries of the dictionary are computed in the order in which they are written.
\<close>

definition dashboard_data :: "tzconv \<Rightarrow> event list \<Rightarrow> py_error + dashboard" where
  "dashboard_data utc_to_pacific data =
     and_then (find_peak_hours utc_to_pacific data) (\<lambda>peak_info.
     and_then (calculate_overview data) (\<lambda>ov.
     and_then (calculate_top_artists data 5) (\<lambda>artists.
     and_then (calculate_top_tracks data 5) (\<lambda>tracks.
     and_then (calculate_hourly_heatmap utc_to_pacific data) (\<lambda>hourly.
     and_then (calculate_weekday_hour_heatmap utc_to_pacific data) (\<lambda>weekday_hour.
     and_then (calculate_day_hour_heatmap utc_to_pacific data) (\<lambda>day_hour.
     and_then (calculate_hourly_distribution utc_to_pacific data) (\<lambda>distribution.
     and_then (calculate_weekday_vs_weekend utc_to_pacific data) (\<lambda>ww.
     and_then (calculate_skipped_tracks data 10 10) (\<lambda>skipped_rows.
     and_then (calculate_monthly_trend utc_to_pacific data) (\<lambda>trend.
     and_then (calculate_special_days utc_to_pacific data) (\<lambda>special.
       Inr \<lparr>db_overview = ov, db_top_artists = artists, db_top_tracks = tracks,
            db_hourly_heatmap = hourly, db_weekday_hour_heatmap = weekday_hour,
            db_day_hour_heatmap = day_hour, db_hourly_distribution = distribution,
            db_weekday_vs_weekend = ww, db_skipped_tracks = skipped_rows,
            db_monthly_trend = trend, db_special_days = special,
            db_peak_hours = peak_info, db_metadata = fixed_metadata\<rparr>))))))))))))"





section \<open>Auxiliary notions for the statements\<close>

text \<open>The exponent of the unit in the last place that \<open>fl\<close> rounds \<open>q\<close> to.\<close>

definition ulp_exp :: "rat \<Rightarrow> int" where
  "ulp_exp q = max (flog2 \<bar>q\<bar>) (- 1022) - 52"

text \<open>The milliseconds that an event adds to a sum: \<open>0\<close> when the field is absent.\<close>

definition ms_value :: "event \<Rightarrow> int" where
  "ms_value item = (case ms_played item of Val n \<Rightarrow> n | _ \<Rightarrow> 0)"

definition has_ts :: "event \<Rightarrow> bool" where
  "has_ts item = truthy (get (ts item))"

text \<open>The JSON object \<^verbatim>\<open>{}\<close>: an event without any field, from which examples are built.\<close>

definition blank :: event where
  "blank = \<lparr>ts = Absent, ms_played = Absent, spotify_track_uri = Absent,
             master_metadata_track_name = Absent, master_metadata_album_artist_name = Absent,
             master_metadata_album_album_name = Absent, skipped = Absent, reason_end = Absent\<rparr>"


definition named :: "event \<Rightarrow> bool" where
  "named item = (truthy (get (master_metadata_track_name item))
                 \<and> truthy (get (master_metadata_album_artist_name item)))"

definition key_of :: "event \<Rightarrow> string" where
  "key_of item = track_key (the (get (master_metadata_track_name item)))
                           (the (get (master_metadata_album_artist_name item)))"

definition key_events :: "string \<Rightarrow> event list \<Rightarrow> event list" where
  "key_events k data = filter (\<lambda>item. named item \<and> key_of item = k) data"

text \<open>An event that has a track name, an artist name and a duration, and nothing else.\<close>

definition play :: "string \<Rightarrow> string \<Rightarrow> int \<Rightarrow> event" where
  "play track artist ms =
     blank\<lparr>master_metadata_track_name := Val track,
           master_metadata_album_artist_name := Val artist, ms_played := Val ms\<rparr>"

text \<open>What the candidate loop establishes for a row, given the per-key statistics.\<close>

definition skip_row_ok :: "int \<Rightarrow> (string \<times> skip_stats) list \<Rightarrow> skip_row \<Rightarrow> bool" where
  "skip_row_ok min_plays stats c \<longleftrightarrow>
     min_plays \<le> sk_total_plays c \<and> 30 \<le> sk_skip_rate c \<and>
     (\<exists>x. truediv (sk_skipped c) (sk_total_plays c) = Inr x \<and> flt (fl (3 / 10)) x
        \<and> round0 (fmul x (Fin 100)) = Inr (sk_skip_rate c)) \<and>
     (\<exists>s \<in> set stats. sk_total_plays c = ss_total_plays (snd s) \<and> sk_skipped c = ss_skipped (snd s)
        \<and> sk_track c = ss_name (snd s) \<and> sk_artist c = ss_artist (snd s))"

text \<open>
  The conversion on three timestamps, as \<^verbatim>\<open>zoneinfo\<close> gives it for
  \<^verbatim>\<open>America/Los_Angeles\<close> (eight hours behind UTC in winter; Monday is weekday \<open>0\<close>), for
  use in examples. Any other string is refused.
\<close>

definition pacific_sample :: tzconv where
  "pacific_sample s =
     (if s = ''2025-01-15T20:00:00Z'' then
        Inr \<lparr>dt_year = 2025, dt_month = 1, dt_day = 15, dt_hour = 12, dt_weekday = 2\<rparr>
      else if s = ''2025-02-01T03:00:00Z'' then
        Inr \<lparr>dt_year = 2025, dt_month = 1, dt_day = 31, dt_hour = 19, dt_weekday = 4\<rparr>
      else if s = ''2025-03-02T18:00:00Z'' then
        Inr \<lparr>dt_year = 2025, dt_month = 3, dt_day = 2, dt_hour = 10, dt_weekday = 6\<rparr>
      else Inl ValueError)"

text \<open>An event with a timestamp, an artist name and a duration.\<close>

definition play_at :: "string \<Rightarrow> string \<Rightarrow> int \<Rightarrow> event" where
  "play_at t artist ms =
     blank\<lparr>ts := Val t, master_metadata_album_artist_name := Val artist, ms_played := Val ms\<rparr>"

text \<open>
  The events that count for a track identifier, and the two sums that the aggregation
  keeps for an identifier.
\<close>

definition id_events :: "string \<Rightarrow> event list \<Rightarrow> event list" where
  "id_events k history =
     filter (\<lambda>item. is_track_event item
                    \<and> track_id_of (the (get (spotify_track_uri item))) = k) history"

definition track_totals :: "(string \<times> track_agg) list \<Rightarrow> string \<Rightarrow> (int \<times> int) option" where
  "track_totals tracks k =
     map_option (\<lambda>t. (ta_ms_played t, ta_play_count t)) (map_of tracks k)"

text \<open>An event with a track URI, a track name and a duration.\<close>

definition listen :: "string \<Rightarrow> string \<Rightarrow> int \<Rightarrow> event" where
  "listen uri name ms =
     blank\<lparr>spotify_track_uri := Val uri, master_metadata_track_name := Val name,
           ms_played := Val ms\<rparr>"




section \<open>Facts about rounding\<close>

lemma rhe_bounds: "\<bar>of_int (rhe q) - q\<bar> \<le> 1 / 2"
proof -
  have "of_int \<lfloor>q\<rfloor> \<le> q" "q < of_int \<lfloor>q\<rfloor> + 1" by linarith+
  then show ?thesis
    unfolding rhe_def Let_def by (auto simp: abs_le_iff)
qed

lemma rhe_of_int [simp]: "rhe (of_int n) = n"
  by (simp add: rhe_def)

lemma rhe_floor: "\<lfloor>q\<rfloor> \<le> rhe q \<and> rhe q \<le> \<lfloor>q\<rfloor> + 1"
  by (simp add: rhe_def Let_def)

lemma rhe_mono:
  assumes "x \<le> y"
  shows "rhe x \<le> rhe y"
proof (cases "\<lfloor>x\<rfloor> = \<lfloor>y\<rfloor>")
  case True
  with assms show ?thesis by (auto simp: rhe_def Let_def)
next
  case False
  with assms have "\<lfloor>x\<rfloor> < \<lfloor>y\<rfloor>" by (simp add: floor_mono order.not_eq_order_implies_strict)
  then show ?thesis using rhe_floor[of x] rhe_floor[of y] by linarith
qed

lemma flog2_ge1:
  assumes "1 \<le> q"
  shows "2 powi (flog2 q) \<le> q \<and> q < 2 powi (flog2 q + 1)"
proof -
  let ?n = "\<lfloor>q\<rfloor>"
  have n: "0 < ?n" using assms by simp
  from bitlen_bounds[OF n] have b: "2 ^ nat (bitlen ?n - 1) \<le> ?n" "?n < 2 ^ nat (bitlen ?n)" by auto
  have b1: "1 \<le> bitlen ?n" using n by (simp add: bitlen_alt_def)
  have e: "flog2 q = bitlen ?n - 1" using assms by (simp add: flog2_def)
  have "(2::rat) powi (bitlen ?n - 1) = of_int (2 ^ nat (bitlen ?n - 1))"
    using b1 by (simp add: power_int_def)
  also have "\<dots> \<le> of_int ?n" using b(1) by (simp only: of_int_le_iff)
  also have "\<dots> \<le> q" by simp
  finally have lo: "2 powi (flog2 q) \<le> q" by (simp add: e)
  have "?n + 1 \<le> 2 ^ nat (bitlen ?n)" using b(2) by simp
  then have "(of_int (?n + 1) :: rat) \<le> of_int (2 ^ nat (bitlen ?n))" by (simp only: of_int_le_iff)
  moreover have "q < of_int (?n + 1)" by simp linarith
  moreover have "(of_int (2 ^ nat (bitlen ?n)) :: rat) = 2 powi (flog2 q + 1)"
    using b1 by (simp add: e power_int_def)
  ultimately have "q < 2 powi (flog2 q + 1)" by linarith
  with lo show ?thesis by simp
qed

lemma flog2_lt1:
  assumes "0 < q" "q < 1"
  shows "2 powi (flog2 q) \<le> q \<and> q < 2 powi (flog2 q + 1)"
proof -
  let ?c = "\<lceil>1 / q\<rceil>"
  let ?m = "?c - 1"
  have r1: "1 < 1 / q" using assms by simp
  then have m: "0 < ?m" by simp
  from bitlen_bounds[OF m] have b: "2 ^ nat (bitlen ?m - 1) \<le> ?m" "?m < 2 ^ nat (bitlen ?m)" by auto
  have b1: "1 \<le> bitlen ?m" using m by (simp add: bitlen_alt_def)
  have e: "flog2 q = - bitlen ?m" using assms by (simp add: flog2_def)
  have "?c \<le> 2 ^ nat (bitlen ?m)" using b(2) by simp
  then have "(of_int ?c :: rat) \<le> of_int (2 ^ nat (bitlen ?m))" by (simp only: of_int_le_iff)
  then have "(of_int ?c :: rat) \<le> 2 ^ nat (bitlen ?m)" by simp
  moreover have "1 / q \<le> of_int ?c" by (rule le_of_int_ceiling)
  ultimately have up: "1 / q \<le> 2 ^ nat (bitlen ?m)" by (rule order_trans[rotated])
  have "(of_int (2 ^ nat (bitlen ?m - 1)) :: rat) \<le> of_int ?m" using b(1) by (simp only: of_int_le_iff)
  then have "(2 ^ nat (bitlen ?m - 1) :: rat) \<le> of_int ?m" by simp
  moreover have "of_int ?m < 1 / q" using of_int_ceiling_diff_one_le[of "1 / q"] ceiling_correct[of "1 / q"] by simp
  ultimately have lo: "2 ^ nat (bitlen ?m - 1) < 1 / q" by (rule le_less_trans)
  have p1: "(2::rat) powi (- bitlen ?m) = 1 / 2 ^ nat (bitlen ?m)"
    using b1 by (simp add: power_int_def field_simps)
  have "- bitlen ?m + 1 = - (bitlen ?m - 1)" by simp
  then have p2: "(2::rat) powi (- bitlen ?m + 1) = 1 / 2 ^ nat (bitlen ?m - 1)"
    using b1 by (simp only: power_int_minus_divide) (simp add: power_int_def)
  have "2 powi (flog2 q) \<le> q"
    unfolding e p1 using up assms(1) by (simp add: field_simps)
  moreover have "q < 2 powi (flog2 q + 1)"
    unfolding e p2 using lo assms(1) by (simp add: field_simps)
  ultimately show ?thesis by simp
qed

lemma flog2_bounds:
  "0 < q \<Longrightarrow> 2 powi (flog2 q) \<le> q \<and> q < 2 powi (flog2 q + 1)"
  using flog2_ge1[of q] flog2_lt1[of q] by (cases "1 \<le> q") auto

lemma pow2_less_cancel: "(2::rat) powi a < 2 powi b \<Longrightarrow> a < b"
  using power_int_increasing[of b a "2::rat"] by (cases "a < b") auto

lemma flog2_less: "0 < q \<Longrightarrow> q < 2 powi n \<Longrightarrow> flog2 q < n"
proof -
  assume q: "0 < q" "q < 2 powi n"
  have "(2::rat) powi (flog2 q) < 2 powi n" using flog2_bounds[OF q(1)] q(2) by linarith
  then show ?thesis by (rule pow2_less_cancel)
qed

lemma flog2_ge: "0 < q \<Longrightarrow> 2 powi n \<le> q \<Longrightarrow> n \<le> flog2 q"
proof -
  assume q: "0 < q" "2 powi n \<le> q"
  have "(2::rat) powi n < 2 powi (flog2 q + 1)" using flog2_bounds[OF q(1)] q(2) by linarith
  then have "n < flog2 q + 1" by (rule pow2_less_cancel)
  then show ?thesis by simp
qed

lemma fl_cases:
  assumes "q \<noteq> 0"
  shows "fl q = (let r = of_int (rhe (\<bar>q\<bar> / 2 powi ulp_exp q)) * 2 powi ulp_exp q
                 in if 2 powi 1024 \<le> r then (if 0 < q then PInf else NInf)
                    else Fin (if 0 < q then r else - r))"
  using assms by (simp add: fl_def ulp_exp_def Let_def)

lemma fl_error:
  assumes "fl q = Fin r"
  shows "\<bar>r - q\<bar> \<le> 2 powi (ulp_exp q) / 2"
proof (cases "q = 0")
  case True
  with assms show ?thesis by (simp add: fl_def)
next
  case False
  let ?u = "(2::rat) powi ulp_exp q"
  let ?m = "rhe (\<bar>q\<bar> / ?u)"
  have u: "0 < ?u" by simp
  have "\<bar>of_int ?m - \<bar>q\<bar> / ?u\<bar> \<le> 1 / 2" by (rule rhe_bounds)
  then have "\<bar>of_int ?m - \<bar>q\<bar> / ?u\<bar> * ?u \<le> 1 / 2 * ?u"
    using u by (intro mult_right_mono) auto
  then have "\<bar>(of_int ?m - \<bar>q\<bar> / ?u) * ?u\<bar> \<le> ?u / 2"
    using u by (simp add: abs_mult)
  then have e: "\<bar>of_int ?m * ?u - \<bar>q\<bar>\<bar> \<le> ?u / 2"
    using u by (simp add: left_diff_distrib)
  from assms False have "r = (if 0 < q then of_int ?m * ?u else - (of_int ?m * ?u))"
    by (simp add: fl_cases Let_def split: if_splits)
  with e False show ?thesis by (cases "0 < q") (auto simp: abs_if split: if_splits)
qed

lemma floor_rat_numeral: "\<lfloor>numeral a / numeral b :: rat\<rfloor> = numeral a div numeral b"
  by (metis floor_divide_of_int_eq of_int_numeral)

lemma ceiling_rat_numeral: "\<lceil>numeral a / numeral b :: rat\<rceil> = - (- numeral a div numeral b)"
  by (metis ceiling_def floor_divide_of_int_eq minus_divide_left of_int_minus of_int_numeral)

lemmas fl_eval = flog2_def rhe_def compute_bitlen floor_rat_numeral ceiling_rat_numeral

lemma fl_three_tenths: "fl (3 / 10) = Fin (5404319552844595 / 18014398509481984)"
  unfolding fl_def Let_def by (simp add: fl_eval)

lemma fl_pos_value:
  assumes "0 < x" "fl x = Fin z"
  shows "z = of_int (rhe (x / 2 powi ulp_exp x)) * 2 powi ulp_exp x"
  using assms by (simp add: fl_cases Let_def split: if_splits)

lemma fl_ge_binade:
  assumes "0 < x" "- 1022 \<le> flog2 x"
  shows "(2::rat) powi (flog2 x) \<le> of_int (rhe (x / 2 powi ulp_exp x)) * 2 powi ulp_exp x"
proof -
  let ?e = "flog2 x"
  have ue: "ulp_exp x = ?e - 52" using assms by (simp add: ulp_exp_def)
  let ?u = "(2::rat) powi (?e - 52)"
  have u: "0 < ?u" by simp
  have split: "(2::rat) powi ?e = 2 ^ 52 * ?u"
    by (simp add: power_int_diff)
  have "2 powi ?e \<le> x" using flog2_bounds[OF assms(1)] by simp
  then have "2 ^ 52 * ?u / ?u \<le> x / ?u" unfolding split using u by (intro divide_right_mono) auto
  then have "of_int (2 ^ 52) \<le> x / ?u" using u by simp
  then have "rhe (of_int (2 ^ 52)) \<le> rhe (x / ?u)" by (rule rhe_mono)
  then have "(2 ^ 52 :: int) \<le> rhe (x / ?u)" by (simp only: rhe_of_int)
  then have "(of_int (2 ^ 52) :: rat) \<le> of_int (rhe (x / ?u))" by (simp only: of_int_le_iff)
  then have "of_int (2 ^ 52) * ?u \<le> of_int (rhe (x / ?u)) * ?u"
    using u by (intro mult_right_mono) auto
  then show ?thesis unfolding ue split by simp
qed

lemma pct_ge_30:
  assumes "5404319552844595 / 18014398509481984 < rate" "fl (rate * 100) = Fin z"
  shows "30 \<le> rhe z"
proof -
  let ?x = "rate * 100"
  have x: "0 < ?x" "2 powi 4 \<le> ?x" using assms(1) by simp_all
  have e4: "4 \<le> flog2 ?x" using flog2_ge[OF x] .
  have z: "z = of_int (rhe (?x / 2 powi ulp_exp ?x)) * 2 powi ulp_exp ?x"
    using fl_pos_value[OF x(1) assms(2)] .
  have "30 \<le> z"
  proof (cases "flog2 ?x = 4")
    case True
    then have ue: "ulp_exp ?x = - 48" using x(1) by (simp add: ulp_exp_def)
    have "8444249301319679 + 11 / 16 \<le> ?x / 2 powi (- 48)" using assms(1) by (simp add: power_int_minus_divide)
    then have "rhe (8444249301319679 + 11 / 16) \<le> rhe (?x / 2 powi (- 48))" by (rule rhe_mono)
    moreover have "rhe (8444249301319679 + 11 / 16) = 8444249301319680"
      by (simp add: rhe_def floor_rat_numeral)
    ultimately have "(8444249301319680::int) \<le> rhe (?x / 2 powi (- 48))" by simp
    then have "(of_int 8444249301319680 :: rat) \<le> of_int (rhe (?x / 2 powi (- 48)))"
      by (simp only: of_int_le_iff)
    then have "of_int 8444249301319680 * 2 powi (- 48) \<le> of_int (rhe (?x / 2 powi (- 48))) * (2::rat) powi (- 48)"
      by (intro mult_right_mono) auto
    then show ?thesis unfolding z ue by (simp add: power_int_minus_divide)
  next
    case False
    with e4 have e5: "5 \<le> flog2 ?x" by simp
    then have "(2::rat) powi 5 \<le> 2 powi (flog2 ?x)" by (intro power_int_increasing) auto
    moreover have "(2::rat) powi (flog2 ?x) \<le> z" unfolding z using e5 by (intro fl_ge_binade x) auto
    ultimately show ?thesis by simp
  qed
  then have "rhe 30 \<le> rhe z" by (rule rhe_mono)
  then show ?thesis using rhe_of_int[of 30] by simp
qed





lemma truediv_zero: "b \<noteq> 0 \<Longrightarrow> truediv 0 b = Inr (Fin 0)"
  by (simp add: truediv_def fl_def)

lemma round_div_zero: "b \<noteq> 0 \<Longrightarrow> round_div 0 b = Inr 0"
  using rhe_of_int[of 0] by (simp add: round_div_def truediv_zero)

lemma round_div_nd_zero: "b \<noteq> 0 \<Longrightarrow> round_div_nd 0 b n = Inr (Fin 0)"
  using rhe_of_int[of 0] by (simp add: round_div_nd_def truediv_zero fl_def)

lemma truediv_Inr: "truediv a b = Inr x \<Longrightarrow> b \<noteq> 0 \<and> (\<exists>r. x = Fin r \<and> fl (of_int a / of_int b) = Fin r)"
  by (cases "fl (of_int a / of_int b)") (auto simp: truediv_def split: if_splits)

lemma round_div_close:
  assumes "\<bar>s\<bar> < 2 ^ 53" "round_div s 60000 = Inr m"
  shows "\<bar>s - 60000 * m\<bar> \<le> 30000"
proof -
  let ?q = "of_int s / 60000 :: rat"
  from assms(2) obtain x where x: "truediv s 60000 = Inr x" "round0 x = Inr m"
    by (cases "truediv s 60000") (auto simp: round_div_def)
  from truediv_Inr[OF x(1)] obtain r where r: "x = Fin r" "fl ?q = Fin r" by auto
  from x(2) r(1) have m: "m = rhe r" by simp
  have err: "\<bar>r - ?q\<bar> \<le> 1 / 2 ^ 16"
  proof (cases "s = 0")
    case True
    with r(2) show ?thesis by (simp add: fl_def)
  next
    case False
    then have q0: "0 < \<bar>?q\<bar>" by simp
    have "\<bar>of_int s :: rat\<bar> < 2 ^ 53" using assms(1) by (metis of_int_abs of_int_less_iff of_int_numeral of_int_power)
    then have "\<bar>?q\<bar> < 2 powi 38" by (simp add: field_simps)
    then have "flog2 \<bar>?q\<bar> < 38" by (rule flog2_less[OF q0])
    then have "ulp_exp ?q \<le> - 15" by (simp add: ulp_exp_def)
    then have "(2::rat) powi (ulp_exp ?q) \<le> 2 powi (- 15)" by (intro power_int_increasing) auto
    with fl_error[OF r(2)] show ?thesis by (simp add: power_int_minus_divide)
  qed
  have "\<bar>of_int m - r\<bar> \<le> 1 / 2" unfolding m by (rule rhe_bounds)
  with err have "\<bar>of_int m - ?q\<bar> \<le> 1 / 2 + 1 / 2 ^ 16" by linarith
  moreover have "of_int m * 60000 - (of_int s :: rat) = (of_int m - ?q) * 60000" by simp
  ultimately have "\<bar>of_int m * 60000 - (of_int s :: rat)\<bar> \<le> (1 / 2 + 1 / 2 ^ 16) * 60000"
    by (simp only: abs_mult) simp
  then have "\<bar>of_int m * 60000 - (of_int s :: rat)\<bar> < 30001" by simp
  then have "(of_int \<bar>m * 60000 - s\<bar> :: rat) < of_int 30001" by simp
  then have "\<bar>m * 60000 - s\<bar> < 30001" by (simp only: of_int_less_iff)
  then show ?thesis by linarith
qed

lemmas fl_unfold = fl_def[unfolded Let_def]

lemmas float_eval = fl_unfold flog2_def rhe_def compute_bitlen floor_rat_numeral
  ceiling_rat_numeral truediv_def round_div_def round_div_nd_def

section \<open>Loops, dictionaries and sorting\<close>

lemma and_then_Inr: "and_then m f = Inr y \<longleftrightarrow> (\<exists>x. m = Inr x \<and> f x = Inr y)"
  by (cases m) simp_all

lemma for_loop_filter:
  assumes "\<And>s x. \<not> P x \<Longrightarrow> body s x = Inr s"
  shows "for_loop body s (filter P xs) = for_loop body s xs"
  by (induction xs arbitrary: s) (simp_all add: assms split: sum.splits)


lemma map_err_Inr:
  "map_err f xs = Inr ys \<Longrightarrow> list_all2 (\<lambda>x y. f x = Inr y) xs ys"
proof (induction xs arbitrary: ys)
  case Nil
  then show ?case by simp
next
  case (Cons x xs)
  then show ?case by (auto simp: and_then_Inr)
qed

lemma map_of_dict_upd:
  "map_of (dict_upd k f d kvs) k' =
     (if k' = k then Some (f (case map_of kvs k of None \<Rightarrow> d | Some v \<Rightarrow> v)) else map_of kvs k')"
  by (induction kvs) auto

lemma map_fst_dict_upd:
  "map fst (dict_upd k f d kvs) =
     (if k \<in> fst ` set kvs then map fst kvs else map fst kvs @ [k])"
proof (induction kvs)
  case Nil
  then show ?case by simp
next
  case (Cons kv kvs)
  obtain a b where kv: "kv = (a, b)" by (cases kv)
  show ?case
  proof (cases "k = a")
    case True
    then show ?thesis by (simp add: kv)
  next
    case False
    then have "k \<in> fst ` set (kv # kvs) \<longleftrightarrow> k \<in> fst ` set kvs" by (auto simp: kv)
    with False Cons.IH show ?thesis by (simp add: kv)
  qed
qed

lemma distinct_dict_upd:
  "distinct (map fst kvs) \<Longrightarrow> distinct (map fst (dict_upd k f d kvs))"
  by (simp add: map_fst_dict_upd)

lemma sum_dict_upd:
  fixes g :: "'v \<Rightarrow> int"
  shows "sum_list (map (\<lambda>x. g (snd x)) (dict_upd k f d kvs)) =
     sum_list (map (\<lambda>x. g (snd x)) kvs)
       + (case map_of kvs k of None \<Rightarrow> g (f d) | Some v \<Rightarrow> g (f v) - g v)"
  by (induction kvs) auto

lemma sorted_reverse_sorted:
  "sorted_wrt (\<lambda>a b. key b \<le> key a) (sorted_reverse key xs)"
proof -
  have "sorted (map (\<lambda>x. - key x) (sort_key (\<lambda>x. - key x) xs))" by (rule sorted_sort_key)
  then show ?thesis by (simp add: sorted_reverse_def sorted_wrt_map)
qed

lemma sorted_reverse_take:
  "sorted_wrt (\<lambda>a b. key b \<le> key a) (take n (sorted_reverse key xs))"
  by (rule sorted_wrt_take[OF sorted_reverse_sorted])

lemma set_sorted_reverse [simp]: "set (sorted_reverse key xs) = set xs"
  by (simp add: sorted_reverse_def)

lemma mset_sorted_reverse [simp]: "mset (sorted_reverse key xs) = mset xs"
  by (simp add: sorted_reverse_def)


lemma filter_perm_facts:
  fixes f :: "'a \<Rightarrow> int"
  assumes "mset xs = mset ys"
  shows "(filter P xs = [] \<longleftrightarrow> filter P ys = [])"
    and "length (filter P xs) = length (filter P ys)"
    and "sum_list (map f (filter P xs)) = sum_list (map f (filter P ys))"
proof -
  have m: "mset (filter P xs) = mset (filter P ys)" using assms by simp
  then show "(filter P xs = [] \<longleftrightarrow> filter P ys = [])" by (metis mset_zero_iff)
  from m show "length (filter P xs) = length (filter P ys)" by (metis size_mset)
  from m have "mset (map f (filter P xs)) = mset (map f (filter P ys))" by simp
  then show "sum_list (map f (filter P xs)) = sum_list (map f (filter P ys))"
    by (metis sum_mset_sum_list)
qed

section \<open>Overview: sums and counts\<close>

lemma item_ms_cases:
  "item_ms item = (case ms_played item of Null \<Rightarrow> Inl TypeError | _ \<Rightarrow> Inr (ms_value item))"
  by (cases "ms_played item") (simp_all add: item_ms_def int_operand_def ms_value_def)

lemma item_ms_Inr: "item_ms item = Inr n \<Longrightarrow> n = ms_value item"
  by (cases "ms_played item") (simp_all add: item_ms_cases)

lemma add_ms_loop:
  "for_loop add_ms acc data = Inr tot \<Longrightarrow> tot = acc + sum_list (map ms_value data)"
proof (induction data arbitrary: acc)
  case Nil
  then show ?case by simp
next
  case (Cons item data)
  show ?case
  proof (cases "item_ms item")
    case (Inl e)
    with Cons.prems show ?thesis by (simp add: add_ms_def[of acc item])
  next
    case (Inr n)
    with Cons.prems have "for_loop add_ms (acc + n) data = Inr tot"
      by (simp add: add_ms_def[of acc item])
    from Cons.IH[OF this] item_ms_Inr[OF Inr] show ?thesis by simp
  qed
qed

lemma add_if_truthy_get:
  "add_if_truthy (get x) s = s \<union> (Val -` {x} - {[]})"
  by (cases x) (auto simp: add_if_truthy_def)

lemma overview_fold:
  "fold overview_body data st =
     (fst st \<union> (Val -` (master_metadata_album_artist_name ` set data) - {[]}),
      snd st \<union> (Val -` (spotify_track_uri ` set data) - {[]}))"
proof (induction data arbitrary: st)
  case Nil
  then show ?case by simp
next
  case (Cons item data)
  have "fold overview_body (item # data) st = fold overview_body data (overview_body item st)"
    by simp
  also have "\<dots> = (fst (overview_body item st) \<union> (Val -` (master_metadata_album_artist_name ` set data) - {[]}),
      snd (overview_body item st) \<union> (Val -` (spotify_track_uri ` set data) - {[]}))"
    by (rule Cons.IH)
  also have "\<dots> = (fst st \<union> (Val -` (master_metadata_album_artist_name ` set (item # data)) - {[]}),
      snd st \<union> (Val -` (spotify_track_uri ` set (item # data)) - {[]}))"
    by (auto simp: overview_body_def[of item st] add_if_truthy_get)
  finally show ?case .
qed

text \<open>
  C5, as the code has it. Whenever \<^verbatim>\<open>calculate_overview\<close> returns: \<^verbatim>\<open>total_plays\<close> is the
  number of events; \<^verbatim>\<open>total_minutes\<close> is \<^verbatim>\<open>round(total / 60000)\<close> for the sum
  \<open>total\<close> of \<^verbatim>\<open>ms_played\<close> over all events (an absent field counting \<open>0\<close>), and
  differs from \<open>total / 60000\<close> by at most half a minute when \<open>\<bar>total\<bar> < 2 ^ 53\<close>;
  \<^verbatim>\<open>unique_artists\<close> and \<^verbatim>\<open>unique_tracks\<close> count the distinct artist names and track
  URIs that are present and not the empty string. On the empty input the function returns
  and every value is zero.
\<close>

theorem overview_correct:
  "(calculate_overview data = Inr ov \<longrightarrow>
      ov_total_plays ov = int (length data) \<and>
      round_div (sum_list (map ms_value data)) 60000 = Inr (ov_total_minutes ov) \<and>
      (\<bar>sum_list (map ms_value data)\<bar> < 2 ^ 53 \<longrightarrow>
         \<bar>sum_list (map ms_value data) - 60000 * ov_total_minutes ov\<bar> \<le> 30000) \<and>
      ov_unique_artists ov =
        int (card (Val -` (master_metadata_album_artist_name ` set data) - {[]})) \<and>
      ov_unique_tracks ov = int (card (Val -` (spotify_track_uri ` set data) - {[]}))) \<and>
   calculate_overview [] =
     Inr \<lparr>ov_total_plays = 0, ov_total_minutes = 0, ov_total_hours = Fin 0,
          ov_total_days = Fin 0, ov_unique_artists = 0, ov_unique_tracks = 0\<rparr>"
proof (intro conjI impI)
  show "calculate_overview [] =
     Inr \<lparr>ov_total_plays = 0, ov_total_minutes = 0, ov_total_hours = Fin 0,
          ov_total_days = Fin 0, ov_unique_artists = 0, ov_unique_tracks = 0\<rparr>"
    by (simp add: calculate_overview_def round_div_zero round_div_nd_zero)
next
  assume a: "calculate_overview data = Inr ov"
  then obtain tot minutes hours days where
    t: "for_loop add_ms 0 data = Inr tot" and
    m: "round_div tot 60000 = Inr minutes" and
    ov: "ov = \<lparr>ov_total_plays = int (length data), ov_total_minutes = minutes,
              ov_total_hours = hours, ov_total_days = days,
              ov_unique_artists = int (card (fst (fold overview_body data ({}, {})))),
              ov_unique_tracks = int (card (snd (fold overview_body data ({}, {}))))\<rparr>"
    by (auto simp: calculate_overview_def and_then_Inr Let_def)
  from add_ms_loop[OF t] have tot: "tot = sum_list (map ms_value data)" by simp
  show "ov_total_plays ov = int (length data)" by (simp add: ov)
  show r: "round_div (sum_list (map ms_value data)) 60000 = Inr (ov_total_minutes ov)"
    using m by (simp add: ov tot)
  show "\<bar>sum_list (map ms_value data) - 60000 * ov_total_minutes ov\<bar> \<le> 30000"
    if "\<bar>sum_list (map ms_value data)\<bar> < 2 ^ 53"
    using round_div_close[OF that r] .
  show "ov_unique_artists ov =
        int (card (Val -` (master_metadata_album_artist_name ` set data) - {[]}))"
    by (simp add: ov overview_fold)
  show "ov_unique_tracks ov = int (card (Val -` (spotify_track_uri ` set data) - {[]}))"
    by (simp add: ov overview_fold)
qed

theorem overview_correct_witness:
  "calculate_overview
     [blank\<lparr>ms_played := Val 120000, spotify_track_uri := Val ''spotify:track:a'',
            master_metadata_album_artist_name := Val ''A''\<rparr>,
      blank\<lparr>ms_played := Val 90000, spotify_track_uri := Val ''spotify:track:b'',
            master_metadata_album_artist_name := Val ''B''\<rparr>] =
     Inr \<lparr>ov_total_plays = 2, ov_total_minutes = 4,
          ov_total_hours = Fin (3602879701896397 / 36028797018963968),
          ov_total_days = Fin 0, ov_unique_artists = 2, ov_unique_tracks = 2\<rparr>
   \<and> round_div (120000 + 90000) 60000 = Inr 4
   \<and> \<bar>120000 + 90000 :: int\<bar> < 2 ^ 53
   \<and> \<bar>(120000 + 90000) - 60000 * 4 :: int\<bar> \<le> 30000"
proof -
  let ?d = "[blank\<lparr>ms_played := Val 120000, spotify_track_uri := Val ''spotify:track:a'',
            master_metadata_album_artist_name := Val ''A''\<rparr>,
      blank\<lparr>ms_played := Val 90000, spotify_track_uri := Val ''spotify:track:b'',
            master_metadata_album_artist_name := Val ''B''\<rparr>]"
  let ?ov = "\<lparr>ov_total_plays = 2, ov_total_minutes = 4,
          ov_total_hours = Fin (3602879701896397 / 36028797018963968),
          ov_total_days = Fin 0, ov_unique_artists = 2, ov_unique_tracks = 2\<rparr>"
  have h: "calculate_overview ?d = Inr ?ov"
    by (simp add: calculate_overview_def add_ms_def item_ms_def int_operand_def blank_def
        overview_body_def add_if_truthy_def float_eval)
  from overview_correct[of ?d ?ov] h show ?thesis
    by (simp add: ms_value_def blank_def)
qed

text \<open>
  C5 as the spec words it counts the distinct non-null names. An event whose artist name is
  the empty string has a non-null name, and the code does not count it.
\<close>

theorem overview_unique_artists_counterexample:
  "calculate_overview [blank\<lparr>master_metadata_album_artist_name := Val []\<rparr>] =
     Inr \<lparr>ov_total_plays = 1, ov_total_minutes = 0, ov_total_hours = Fin 0,
          ov_total_days = Fin 0, ov_unique_artists = 0, ov_unique_tracks = 0\<rparr>
   \<and> card (Val -` (master_metadata_album_artist_name `
                       set [blank\<lparr>master_metadata_album_artist_name := Val []\<rparr>])) = 1"
proof -
  have "Val -` {Val ([]::string)} = {[]}" by auto
  then show ?thesis
    by (simp add: calculate_overview_def add_ms_def item_ms_def int_operand_def blank_def
        overview_body_def add_if_truthy_def round_div_zero round_div_nd_zero)
qed

section \<open>Top artists and top tracks: ranking\<close>









lemmas top_eval = calculate_top_artists_def top_artists_def artist_body_def
  calculate_top_tracks_def top_tracks_def track_body_def track_key_def
  item_ms_def int_operand_def blank_def play_def sorted_reverse_def
  artist_entry_def track_entry_def pct_of_def float_eval



section \<open>Skipped tracks: threshold and rate\<close>

lemma skip_body_cases:
  "skip_body item acc =
     (if named item then
        dict_upd (key_of item)
          (\<lambda>st. st\<lparr>ss_total_plays := ss_total_plays st + 1,
                   ss_name := the (get (master_metadata_track_name item)),
                   ss_artist := the (get (master_metadata_album_artist_name item)),
                   ss_skipped := (if is_skip item then ss_skipped st + 1 else ss_skipped st)\<rparr>)
          \<lparr>ss_total_plays = 0, ss_skipped = 0, ss_name = [], ss_artist = []\<rparr> acc
      else acc)"
  by (simp add: skip_body_def named_def key_of_def Let_def)

lemma skip_loop:
  "(distinct (map fst acc) \<longrightarrow> distinct (map fst (fold skip_body data acc))) \<and>
   map_of (fold skip_body data acc) k =
     (if key_events k data = [] then map_of acc k
      else Some \<lparr>ss_total_plays = (case map_of acc k of None \<Rightarrow> 0 | Some st \<Rightarrow> ss_total_plays st)
                        + int (length (key_events k data)),
                 ss_skipped = (case map_of acc k of None \<Rightarrow> 0 | Some st \<Rightarrow> ss_skipped st)
                        + int (length (filter is_skip (key_events k data))),
                 ss_name = the (get (master_metadata_track_name (last (key_events k data)))),
                 ss_artist = the (get (master_metadata_album_artist_name (last (key_events k data))))\<rparr>)"
proof (induction data arbitrary: acc)
  case Nil
  then show ?case by (simp add: key_events_def)
next
  case (Cons item data)
  note IH = Cons.IH[of "skip_body item acc"]
  have f: "fold skip_body (item # data) acc = fold skip_body data (skip_body item acc)" by simp
  show ?case
  proof (cases "named item")
    case False
    then have "skip_body item acc = acc" by (simp add: skip_body_cases)
    moreover have "key_events k (item # data) = key_events k data"
      using False by (simp add: key_events_def)
    ultimately show ?thesis using IH unfolding f by auto
  next
    case True
    then have acc': "skip_body item acc = dict_upd (key_of item)
          (\<lambda>st. st\<lparr>ss_total_plays := ss_total_plays st + 1,
                   ss_name := the (get (master_metadata_track_name item)),
                   ss_artist := the (get (master_metadata_album_artist_name item)),
                   ss_skipped := (if is_skip item then ss_skipped st + 1 else ss_skipped st)\<rparr>)
          \<lparr>ss_total_plays = 0, ss_skipped = 0, ss_name = [], ss_artist = []\<rparr> acc"
      by (simp add: skip_body_cases)
    have ev: "key_events k (item # data) = (if key_of item = k then item # key_events k data else key_events k data)"
      using True by (auto simp: key_events_def)
    show ?thesis
      using IH unfolding f by (auto simp: ev acc' map_of_dict_upd distinct_dict_upd split: option.splits)
  qed
qed

lemma rate_pct_ge_30:
  assumes "truediv a b = Inr x" "flt (fl (3 / 10)) x" "round0 (fmul x (Fin 100)) = Inr p"
  shows "30 \<le> p"
proof -
  from truediv_Inr[OF assms(1)] obtain r where r: "x = Fin r" by auto
  from assms(2) have lt: "5404319552844595 / 18014398509481984 < r"
    by (simp add: r fl_three_tenths)
  from assms(3) obtain z where z: "fl (r * 100) = Fin z" "p = rhe z"
    by (cases "fl (r * 100)") (auto simp: r)
  from pct_ge_30[OF lt z(1)] z(2) show ?thesis by simp
qed

lemma skip_candidate_ok:
  assumes "skip_candidate min_plays cands s = Inr cands'" "\<forall>c \<in> set cands. skip_row_ok min_plays stats c"
    "s \<in> set stats"
  shows "\<forall>c \<in> set cands'. skip_row_ok min_plays stats c"
proof (cases "min_plays \<le> ss_total_plays (snd s)")
  case False
  with assms show ?thesis by (simp add: skip_candidate_def Let_def)
next
  case True
  with assms(1) obtain x where x: "truediv (ss_skipped (snd s)) (ss_total_plays (snd s)) = Inr x"
    by (auto simp: skip_candidate_def Let_def and_then_Inr)
  show ?thesis
  proof (cases "flt (fl (3 / 10)) x")
    case False
    with assms True x show ?thesis by (simp add: skip_candidate_def Let_def)
  next
    case f: True
    with assms(1) True x obtain p where p: "round0 (fmul x (Fin 100)) = Inr p"
      and c: "cands' = cands @ [\<lparr>sk_track = ss_name (snd s), sk_artist = ss_artist (snd s),
                     sk_total_plays = ss_total_plays (snd s), sk_skipped = ss_skipped (snd s),
                     sk_skip_rate = p\<rparr>]"
      by (auto simp: skip_candidate_def Let_def and_then_Inr)
    have "skip_row_ok min_plays stats \<lparr>sk_track = ss_name (snd s), sk_artist = ss_artist (snd s),
                     sk_total_plays = ss_total_plays (snd s), sk_skipped = ss_skipped (snd s),
                     sk_skip_rate = p\<rparr>"
      unfolding skip_row_ok_def using True x f p rate_pct_ge_30[OF x f p] assms(3) by auto
    with assms(2) show ?thesis by (simp add: c)
  qed
qed

lemma skip_candidates_ok:
  assumes "for_loop (skip_candidate min_plays) cands ss = Inr cands'"
    "\<forall>c \<in> set cands. skip_row_ok min_plays stats c" "set ss \<subseteq> set stats"
  shows "\<forall>c \<in> set cands'. skip_row_ok min_plays stats c"
  using assms
proof (induction ss arbitrary: cands)
  case Nil
  then show ?case by simp
next
  case (Cons s ss)
  from Cons.prems(1) obtain c1 where
    c1: "skip_candidate min_plays cands s = Inr c1" and l: "for_loop (skip_candidate min_plays) c1 ss = Inr cands'"
    by (cases "skip_candidate min_plays cands s") auto
  have "\<forall>c \<in> set c1. skip_row_ok min_plays stats c"
    using skip_candidate_ok[OF c1 Cons.prems(2)] Cons.prems(3) by simp
  from Cons.IH[OF l this] Cons.prems(3) show ?case by simp
qed

text \<open>
  C2, as the code has it. Whenever \<^verbatim>\<open>calculate_skipped_tracks\<close> returns, every row
  belongs to a key with at least \<open>min_plays\<close> events (\<open>10\<close> in \<^verbatim>\<open>main\<close>):
  \<^verbatim>\<open>total_plays\<close> is the number of events of the key and \<^verbatim>\<open>skipped\<close> the number of
  those with a true \<^verbatim>\<open>skipped\<close> flag or an end reason \<^verbatim>\<open>fwdbtn\<close> or \<^verbatim>\<open>backbtn\<close>;
  their quotient, as a float, is greater than \<^verbatim>\<open>0.3\<close>; the field \<^verbatim>\<open>skip_rate\<close> is that
  quotient times 100, rounded, and is at least \<open>30\<close>. The rows are sorted descending by
  \<^verbatim>\<open>skip_rate\<close> and there are at most \<open>limit\<close> of them.
\<close>

theorem skipped_tracks_correct:
  "calculate_skipped_tracks data min_plays limit = Inr rows \<Longrightarrow>
     (\<forall>r \<in> set rows.
        min_plays \<le> sk_total_plays r \<and> 30 \<le> sk_skip_rate r \<and>
        (\<exists>k. key_events k data \<noteq> []
           \<and> sk_total_plays r = int (length (key_events k data))
           \<and> sk_skipped r = int (length (filter is_skip (key_events k data)))) \<and>
        (\<exists>x. truediv (sk_skipped r) (sk_total_plays r) = Inr x \<and> flt (fl (3 / 10)) x
           \<and> round0 (fmul x (Fin 100)) = Inr (sk_skip_rate r))) \<and>
     sorted_wrt (\<lambda>a b. sk_skip_rate b \<le> sk_skip_rate a) rows \<and> length rows \<le> limit"
proof -
  assume a: "calculate_skipped_tracks data min_plays limit = Inr rows"
  let ?stats = "fold skip_body data []"
  from a obtain cands where
    c: "for_loop (skip_candidate min_plays) [] ?stats = Inr cands" and
    rows: "rows = take limit (sorted_reverse sk_skip_rate cands)"
    by (auto simp: calculate_skipped_tracks_def and_then_Inr)
  have ok: "\<forall>c \<in> set cands. skip_row_ok min_plays ?stats c"
    by (rule skip_candidates_ok[OF c]) simp_all
  have d: "distinct (map fst ?stats)" using skip_loop[of "[]" data] by simp
  have grp: "\<exists>k. key_events k data \<noteq> []
           \<and> ss_total_plays (snd s) = int (length (key_events k data))
           \<and> ss_skipped (snd s) = int (length (filter is_skip (key_events k data)))"
    if "s \<in> set ?stats" for s
  proof -
    from that d have "map_of ?stats (fst s) = Some (snd s)"
      using map_of_eq_Some_iff[of ?stats "fst s" "snd s"] by simp
    with skip_loop[of "[]" data "fst s"] show ?thesis
      by (intro exI[of _ "fst s"]) (auto split: if_splits)
  qed
  have each: "min_plays \<le> sk_total_plays r \<and> 30 \<le> sk_skip_rate r \<and>
        (\<exists>k. key_events k data \<noteq> []
           \<and> sk_total_plays r = int (length (key_events k data))
           \<and> sk_skipped r = int (length (filter is_skip (key_events k data)))) \<and>
        (\<exists>x. truediv (sk_skipped r) (sk_total_plays r) = Inr x \<and> flt (fl (3 / 10)) x
           \<and> round0 (fmul x (Fin 100)) = Inr (sk_skip_rate r))" if "r \<in> set rows" for r
  proof -
    from that have "r \<in> set cands" unfolding rows by (auto dest: in_set_takeD)
    with ok have r: "skip_row_ok min_plays ?stats r" by simp
    then obtain s where s: "s \<in> set ?stats" "sk_total_plays r = ss_total_plays (snd s)"
      "sk_skipped r = ss_skipped (snd s)"
      unfolding skip_row_ok_def by blast
    from grp[OF s(1)] s(2,3) have "\<exists>k. key_events k data \<noteq> []
           \<and> sk_total_plays r = int (length (key_events k data))
           \<and> sk_skipped r = int (length (filter is_skip (key_events k data)))" by simp
    with r show ?thesis unfolding skip_row_ok_def by blast
  qed
  have "sorted_wrt (\<lambda>a b. sk_skip_rate b \<le> sk_skip_rate a) rows"
    unfolding rows by (rule sorted_reverse_take)
  moreover have "length rows \<le> limit" unfolding rows by simp
  ultimately show ?thesis using each by blast
qed

lemmas skip_eval = calculate_skipped_tracks_def skip_body_def skip_candidate_def is_skip_def
  track_key_def play_def blank_def sorted_reverse_def float_eval eval_nat_numeral

theorem skipped_tracks_correct_witness:
  "calculate_skipped_tracks
     (replicate 4 ((play ''T'' ''A'' 1000)\<lparr>skipped := Val True\<rparr>)
        @ replicate 6 (play ''T'' ''A'' 200000)) 10 10 =
     Inr [\<lparr>sk_track = ''T'', sk_artist = ''A'', sk_total_plays = 10, sk_skipped = 4,
           sk_skip_rate = 40\<rparr>]
   \<and> (\<exists>x. truediv 4 10 = Inr x \<and> flt (fl (3 / 10)) x \<and> round0 (fmul x (Fin 100)) = Inr 40)
   \<and> (\<exists>k. key_events k (replicate 4 ((play ''T'' ''A'' 1000)\<lparr>skipped := Val True\<rparr>)
                          @ replicate 6 (play ''T'' ''A'' 200000)) \<noteq> []
          \<and> 10 = int (length (key_events k
                 (replicate 4 ((play ''T'' ''A'' 1000)\<lparr>skipped := Val True\<rparr>)
                    @ replicate 6 (play ''T'' ''A'' 200000))))
          \<and> 4 = int (length (filter is_skip (key_events k
                 (replicate 4 ((play ''T'' ''A'' 1000)\<lparr>skipped := Val True\<rparr>)
                    @ replicate 6 (play ''T'' ''A'' 200000))))))"
proof -
  let ?d = "replicate 4 ((play ''T'' ''A'' 1000)\<lparr>skipped := Val True\<rparr>)
        @ replicate 6 (play ''T'' ''A'' 200000)"
  let ?rows = "[\<lparr>sk_track = ''T'', sk_artist = ''A'', sk_total_plays = 10, sk_skipped = 4,
           sk_skip_rate = 40\<rparr>]"
  have h: "calculate_skipped_tracks ?d 10 10 = Inr ?rows" by (simp add: skip_eval)
  from skipped_tracks_correct[OF h] h show ?thesis by simp
qed

text \<open>
  C2 as the spec words it asks for \<^verbatim>\<open>skip_rate > 30\<close> in every row. A track played 23
  times and skipped 7 times has the rate \<open>7 / 23\<close>, which is greater than \<^verbatim>\<open>0.3\<close>, and
  its row carries the rounded percentage \<open>30\<close>.
\<close>

theorem skipped_tracks_rate_30_counterexample:
  "calculate_skipped_tracks
     (replicate 7 ((play ''T'' ''A'' 1000)\<lparr>skipped := Val True\<rparr>)
        @ replicate 16 (play ''T'' ''A'' 200000)) 10 10 =
     Inr [\<lparr>sk_track = ''T'', sk_artist = ''A'', sk_total_plays = 23, sk_skipped = 7,
           sk_skip_rate = 30\<rparr>]"
  by (simp add: skip_eval)

section \<open>Monthly trend: deltas\<close>

lemma month_body_cases:
  "month_body utc_to_pacific acc item =
     (if has_ts item then
        and_then (utc_to_pacific (the (get (ts item)))) (\<lambda>dt_pacific.
        and_then (item_ms item) (\<lambda>n.
          Inr (dict_upd (dt_month dt_pacific)
                 (\<lambda>st. st\<lparr>mo_plays := mo_plays st + 1, mo_ms := mo_ms st + n\<rparr>)
                 \<lparr>mo_plays = 0, mo_ms = 0\<rparr> acc)))
      else Inr acc)"
  by (simp add: month_body_def has_ts_def Let_def)

lemma month_loop:
  assumes "for_loop (month_body utc_to_pacific) acc data = Inr r"
  shows "(distinct (map fst acc) \<longrightarrow> distinct (map fst r)) \<and>
         sum_list (map (\<lambda>x. mo_plays (snd x)) r) =
           sum_list (map (\<lambda>x. mo_plays (snd x)) acc) + int (length (filter has_ts data))"
  using assms
proof (induction data arbitrary: acc)
  case Nil
  then show ?case by simp
next
  case (Cons item data)
  from Cons.prems obtain acc' where
    b: "month_body utc_to_pacific acc item = Inr acc'" and
    l: "for_loop (month_body utc_to_pacific) acc' data = Inr r"
    by (cases "month_body utc_to_pacific acc item") auto
  note IH = Cons.IH[OF l]
  show ?case
  proof (cases "has_ts item")
    case False
    with b have "acc' = acc" by (simp add: month_body_cases)
    with IH False show ?thesis by simp
  next
    case True
    with b obtain m n where acc': "acc' = dict_upd m
                 (\<lambda>st. st\<lparr>mo_plays := mo_plays st + 1, mo_ms := mo_ms st + n\<rparr>)
                 \<lparr>mo_plays = 0, mo_ms = 0\<rparr> acc"
      by (auto simp: month_body_cases and_then_Inr)
    have "sum_list (map (\<lambda>x. mo_plays (snd x)) acc') = sum_list (map (\<lambda>x. mo_plays (snd x)) acc) + 1"
      unfolding acc' by (simp add: sum_dict_upd split: option.splits)
    with IH True show ?thesis by (simp add: acc' distinct_dict_upd)
  qed
qed

lemma delta_of_Inr:
  assumes "delta_of p h = Inr d"
  shows "fst d = PFloat (round_nd (fsub h p) 1) \<and> (\<not> flt (Fin 0) p \<longrightarrow> snd d = 0)"
  using assms by (auto simp: delta_of_def Let_def and_then_Inr split: if_splits)

lemma with_deltas_props:
  assumes "with_deltas prev rs = Inr ds"
  shows "map fst ds = rs \<and>
         (\<forall>i < length rs.
            if i = 0 then (case prev of None \<Rightarrow> snd (ds ! 0) = (PInt 0, 0)
                           | Some p \<Rightarrow> delta_of p (mb_hours (rs ! 0)) = Inr (snd (ds ! 0)))
            else delta_of (mb_hours (rs ! (i - 1))) (mb_hours (rs ! i)) = Inr (snd (ds ! i)))"
  using assms
proof (induction rs arbitrary: prev ds)
  case Nil
  then show ?case by simp
next
  case (Cons r rs)
  from Cons.prems obtain d rest where
    d: "(case prev of None \<Rightarrow> Inr (PInt 0, 0) | Some p \<Rightarrow> delta_of p (mb_hours r)) = Inr d" and
    rest: "with_deltas (Some (mb_hours r)) rs = Inr rest" and
    ds: "ds = (r, d) # rest"
    by (auto simp: and_then_Inr)
  note IH = Cons.IH[OF rest]
  have "map fst ds = r # rs" using IH ds by simp
  moreover have "if i = 0 then (case prev of None \<Rightarrow> snd (ds ! 0) = (PInt 0, 0)
                           | Some p \<Rightarrow> delta_of p (mb_hours ((r # rs) ! 0)) = Inr (snd (ds ! 0)))
            else delta_of (mb_hours ((r # rs) ! (i - 1))) (mb_hours ((r # rs) ! i)) = Inr (snd (ds ! i))"
    if "i < length (r # rs)" for i
  proof (cases i)
    case 0
    with d ds show ?thesis by (auto split: option.splits)
  next
    case (Suc j)
    with that have j: "j < length rs" by simp
    from IH j have "if j = 0 then delta_of (mb_hours r) (mb_hours (rs ! 0)) = Inr (snd (rest ! 0))
            else delta_of (mb_hours (rs ! (j - 1))) (mb_hours (rs ! j)) = Inr (snd (rest ! j))"
      by (auto split: if_splits)
    then show ?thesis using Suc ds by (cases j) auto
  qed
  ultimately show ?case by blast
qed

lemma month_entry_Inr:
  "month_entry x = Inr b \<Longrightarrow> mb_month b = fst x \<and> mb_plays b = mo_plays (snd x)"
  by (auto simp: month_entry_def and_then_Inr)

lemma month_entries:
  assumes "map_err month_entry xs = Inr bs"
  shows "map mb_month bs = map fst xs \<and> map mb_plays bs = map (\<lambda>x. mo_plays (snd x)) xs"
  using map_err_Inr[OF assms]
  by (induction xs bs rule: list_all2_induct) (auto dest: month_entry_Inr)

lemma mark_months_props:
  "length (mark_months r) = length r \<and>
   map mr_month (mark_months r) = map (\<lambda>x. mb_month (fst x)) r \<and>
   map mr_plays (mark_months r) = map (\<lambda>x. mb_plays (fst x)) r \<and>
   map mr_hours (mark_months r) = map (\<lambda>x. mb_hours (fst x)) r \<and>
   map mr_delta (mark_months r) = map (\<lambda>x. fst (snd x)) r \<and>
   map mr_delta_pct (mark_months r) = map (\<lambda>x. snd (snd x)) r"
  by (cases r) (simp_all add: mark_months_def Let_def)

lemma monthly_trend_parts:
  assumes "calculate_monthly_trend utc_to_pacific data = Inr rows"
  shows "\<exists>months base ds.
           for_loop (month_body utc_to_pacific) [] data = Inr months \<and>
           map_err month_entry (sort_key fst months) = Inr base \<and>
           with_deltas None base = Inr ds \<and> rows = mark_months ds"
  using assms by (auto simp: calculate_monthly_trend_def and_then_Inr)

text \<open>
  C4. Whenever \<^verbatim>\<open>calculate_monthly_trend\<close> returns a non-empty list: the first entry has
  \<^verbatim>\<open>delta = 0\<close> and \<^verbatim>\<open>delta_pct = 0\<close>; every later entry has
  \<^verbatim>\<open>delta = round(hours[i] - hours[i - 1], 1)\<close> for the entry just before it in the result,
  which is sorted by month, each month once; and \<^verbatim>\<open>delta_pct\<close> is \<open>0\<close> when the hours
  of the entry before are \<open>0\<close> (more generally, not greater than \<open>0\<close>).
\<close>

theorem monthly_trend_deltas:
  assumes "calculate_monthly_trend utc_to_pacific data = Inr rows" "rows \<noteq> []"
  shows "mr_delta (rows ! 0) = PInt 0 \<and> mr_delta_pct (rows ! 0) = 0 \<and>
         (\<forall>i. 0 < i \<and> i < length rows \<longrightarrow>
            mr_delta (rows ! i) =
              PFloat (round_nd (fsub (mr_hours (rows ! i)) (mr_hours (rows ! (i - 1)))) 1) \<and>
            (mr_hours (rows ! (i - 1)) = Fin 0 \<longrightarrow> mr_delta_pct (rows ! i) = 0) \<and>
            (\<not> flt (Fin 0) (mr_hours (rows ! (i - 1))) \<longrightarrow> mr_delta_pct (rows ! i) = 0)) \<and>
         sorted_wrt (<) (map mr_month rows)"
proof -
  from monthly_trend_parts[OF assms(1)] obtain months base ds where
    lp: "for_loop (month_body utc_to_pacific) [] data = Inr months" and
    base: "map_err month_entry (sort_key fst months) = Inr base" and
    ds: "with_deltas None base = Inr ds" and
    rows: "rows = mark_months ds"
    by blast
  have mk: "length rows = length ds" "map mr_month rows = map (\<lambda>x. mb_month (fst x)) ds"
    "map mr_hours rows = map (\<lambda>x. mb_hours (fst x)) ds"
    "map mr_delta rows = map (\<lambda>x. fst (snd x)) ds"
    "map mr_delta_pct rows = map (\<lambda>x. snd (snd x)) ds"
    unfolding rows using mark_months_props[of ds] by blast+
  have wd1: "map fst ds = base" using with_deltas_props[OF ds] by blast
  have wd2: "if i = 0 then snd (ds ! 0) = (PInt 0, 0)
            else delta_of (mb_hours (base ! (i - 1))) (mb_hours (base ! i)) = Inr (snd (ds ! i))"
    if "i < length base" for i
    using with_deltas_props[OF ds] that by (auto split: if_splits)
  have "length (map fst ds) = length base" using wd1 by simp
  then have len: "length rows = length base" "length ds = length base"
    using mk(1) by simp_all
  have field: "mr_hours (rows ! i) = mb_hours (base ! i) \<and> mr_delta (rows ! i) = fst (snd (ds ! i))
      \<and> mr_delta_pct (rows ! i) = snd (snd (ds ! i))" if "i < length rows" for i
  proof -
    from that len have i: "i < length ds" "i < length base" by simp_all
    have "mr_hours (rows ! i) = map mr_hours rows ! i" using that by simp
    also have "\<dots> = mb_hours (fst (ds ! i))" unfolding mk(3) using i by simp
    also have "fst (ds ! i) = map fst ds ! i" using i by simp
    finally have h: "mr_hours (rows ! i) = mb_hours (base ! i)" unfolding wd1 .
    have "mr_delta (rows ! i) = map mr_delta rows ! i" using that by simp
    also have "\<dots> = fst (snd (ds ! i))" unfolding mk(4) using i by simp
    finally have d: "mr_delta (rows ! i) = fst (snd (ds ! i))" .
    have "mr_delta_pct (rows ! i) = map mr_delta_pct rows ! i" using that by simp
    also have "\<dots> = snd (snd (ds ! i))" unfolding mk(5) using i by simp
    finally have p: "mr_delta_pct (rows ! i) = snd (snd (ds ! i))" .
    from h d p show ?thesis by simp
  qed
  from assms(2) have pos: "0 < length rows" by simp
  have first: "snd (ds ! 0) = (PInt 0, 0)" using wd2[of 0] pos len by simp
  have later: "delta_of (mb_hours (base ! (i - 1))) (mb_hours (base ! i)) = Inr (snd (ds ! i))"
    if "0 < i" "i < length rows" for i
    using wd2[of i] that len by simp
  have d: "distinct (map fst months)" using month_loop[OF lp] by simp
  have "map mr_month rows = map fst (sort_key fst months)"
  proof -
    have "map mr_month rows = map mb_month (map fst ds)" using mk(2) by (simp add: o_def)
    also have "\<dots> = map mb_month base" using wd1 by simp
    also have "\<dots> = map fst (sort_key fst months)" using month_entries[OF base] by simp
    finally show ?thesis .
  qed
  moreover have "sorted_wrt (<) (map fst (sort_key fst months))"
  proof -
    have "mset (map fst (sort_key fst months)) = mset (map fst months)" by simp
    then have "distinct (map fst (sort_key fst months))"
      using d mset_eq_imp_distinct_iff by blast
    then show ?thesis by (simp add: strict_sorted_iff)
  qed
  ultimately have srt: "sorted_wrt (<) (map mr_month rows)" by simp
  have "mr_delta (rows ! 0) = PInt 0 \<and> mr_delta_pct (rows ! 0) = 0"
    using field[OF pos] first by simp
  moreover have "mr_delta (rows ! i) =
              PFloat (round_nd (fsub (mr_hours (rows ! i)) (mr_hours (rows ! (i - 1)))) 1) \<and>
            (mr_hours (rows ! (i - 1)) = Fin 0 \<longrightarrow> mr_delta_pct (rows ! i) = 0) \<and>
            (\<not> flt (Fin 0) (mr_hours (rows ! (i - 1))) \<longrightarrow> mr_delta_pct (rows ! i) = 0)"
    if "0 < i \<and> i < length rows" for i
  proof -
    from that have i: "0 < i" "i < length rows" "i - 1 < length rows" by auto
    from delta_of_Inr[OF later[OF i(1,2)]] field[OF i(2)] field[OF i(3)]
    show ?thesis by auto
  qed
  ultimately show ?thesis using srt by blast
qed

lemma floor_rat_neg_numeral:
  "\<lfloor>- (numeral a / numeral b) :: rat\<rfloor> = - numeral a div numeral b"
  by (metis divide_minus_left floor_divide_of_int_eq of_int_neg_numeral of_int_numeral)

lemmas monthly_eval = calculate_monthly_trend_def month_body_def month_entry_def py_index_def
  month_names_def delta_of_def mark_months_def max_by_def num_lt_def pacific_sample_def
  play_at_def blank_def item_ms_def int_operand_def Let_def float_eval floor_rat_neg_numeral

theorem monthly_trend_deltas_witness:
  "calculate_monthly_trend pacific_sample
     [play_at ''2025-03-02T18:00:00Z'' ''B'' 3600000, play_at ''2025-01-15T20:00:00Z'' ''A'' 1000] =
     Inr [\<lparr>mr_month = 1, mr_month_name = ''Ene'', mr_plays = 1, mr_hours = Fin 0,
           mr_delta = PInt 0, mr_delta_pct = 0, mr_is_peak = False, mr_is_inflection = False\<rparr>,
          \<lparr>mr_month = 3, mr_month_name = ''Mar'', mr_plays = 1, mr_hours = Fin 1,
           mr_delta = PFloat (Fin 1), mr_delta_pct = 0, mr_is_peak = True,
           mr_is_inflection = True\<rparr>]
   \<and> PFloat (Fin 1) = PFloat (round_nd (fsub (Fin 1) (Fin 0)) 1)
   \<and> \<not> flt (Fin 0) (Fin 0)"
proof -
  let ?d = "[play_at ''2025-03-02T18:00:00Z'' ''B'' 3600000, play_at ''2025-01-15T20:00:00Z'' ''A'' 1000]"
  let ?rows = "[\<lparr>mr_month = 1, mr_month_name = ''Ene'', mr_plays = 1, mr_hours = Fin 0,
           mr_delta = PInt 0, mr_delta_pct = 0, mr_is_peak = False, mr_is_inflection = False\<rparr>,
          \<lparr>mr_month = 3, mr_month_name = ''Mar'', mr_plays = 1, mr_hours = Fin 1,
           mr_delta = PFloat (Fin 1), mr_delta_pct = 0, mr_is_peak = True,
           mr_is_inflection = True\<rparr>]"
  have h: "calculate_monthly_trend pacific_sample ?d = Inr ?rows" by (simp add: monthly_eval)
  have ne: "?rows \<noteq> []" by simp
  from monthly_trend_deltas[OF h ne] have
    "0 < (1::nat) \<and> 1 < length ?rows \<longrightarrow>
       mr_delta (?rows ! 1) = PFloat (round_nd (fsub (mr_hours (?rows ! 1)) (mr_hours (?rows ! (1 - 1)))) 1)"
    by blast
  then have c2: "PFloat (Fin 1) = PFloat (round_nd (fsub (Fin 1) (Fin 0)) 1)"
    by (simp add: float_eval)
  have c3: "\<not> flt (Fin 0) (Fin 0)" by simp
  from h c2 c3 show ?thesis by (intro conjI)
qed

section \<open>Events with and without a timestamp\<close>








lemma item_ms_ts_update [simp]: "item_ms (ts_update f item) = item_ms item"
  by (simp add: item_ms_def)











section \<open>Listening-history aggregation: order of the events\<close>

lemma unique_body_cases:
  "unique_body acc item =
     (if is_track_event item then
        (case ms_played item of
           Null \<Rightarrow> Inl TypeError
         | _ \<Rightarrow> Inr (dict_upd (track_id_of (the (get (spotify_track_uri item))))
                 (\<lambda>st. st\<lparr>ta_ms_played := ta_ms_played st + ms_value item,
                          ta_play_count := ta_play_count st + 1,
                          ta_track_name := get_default (master_metadata_track_name item) [],
                          ta_artist_name := get_default (master_metadata_album_artist_name item) [],
                          ta_album_name := get_default (master_metadata_album_album_name item) []\<rparr>)
                 \<lparr>ta_ms_played = 0, ta_play_count = 0, ta_track_name = Some [],
                  ta_artist_name = Some [], ta_album_name = Some []\<rparr> acc))
      else Inr acc)"
  by (cases "ms_played item") (simp_all add: unique_body_def item_ms_cases)

lemma track_totals_dict_upd:
  "track_totals (dict_upd k f d acc) k' =
     (if k' = k then Some (ta_ms_played (f (case map_of acc k of None \<Rightarrow> d | Some v \<Rightarrow> v)),
                           ta_play_count (f (case map_of acc k of None \<Rightarrow> d | Some v \<Rightarrow> v)))
      else track_totals acc k')"
  by (simp add: track_totals_def map_of_dict_upd)

lemma unique_loop:
  assumes "for_loop unique_body acc h = Inr r"
  shows "track_totals r k =
           (if id_events k h = [] then track_totals acc k
            else Some ((case track_totals acc k of None \<Rightarrow> 0 | Some p \<Rightarrow> fst p)
                         + sum_list (map ms_value (id_events k h)),
                       (case track_totals acc k of None \<Rightarrow> 0 | Some p \<Rightarrow> snd p)
                         + int (length (id_events k h))))"
  using assms
proof (induction h arbitrary: acc)
  case Nil
  then show ?case by (simp add: id_events_def)
next
  case (Cons item h)
  from Cons.prems obtain acc' where
    b: "unique_body acc item = Inr acc'" and l: "for_loop unique_body acc' h = Inr r"
    by (cases "unique_body acc item") auto
  note IH = Cons.IH[OF l]
  show ?case
  proof (cases "is_track_event item")
    case False
    with b have "acc' = acc" by (simp add: unique_body_cases)
    moreover have "id_events k (item # h) = id_events k h"
      using False by (simp add: id_events_def)
    ultimately show ?thesis using IH by simp
  next
    case True
    let ?id = "track_id_of (the (get (spotify_track_uri item)))"
    from True b have acc': "acc' = dict_upd ?id
                 (\<lambda>st. st\<lparr>ta_ms_played := ta_ms_played st + ms_value item,
                          ta_play_count := ta_play_count st + 1,
                          ta_track_name := get_default (master_metadata_track_name item) [],
                          ta_artist_name := get_default (master_metadata_album_artist_name item) [],
                          ta_album_name := get_default (master_metadata_album_album_name item) []\<rparr>)
                 \<lparr>ta_ms_played = 0, ta_play_count = 0, ta_track_name = Some [],
                  ta_artist_name = Some [], ta_album_name = Some []\<rparr> acc"
      by (cases "ms_played item") (simp_all add: unique_body_cases)
    have ev: "id_events k (item # h) = (if ?id = k then item # id_events k h else id_events k h)"
      using True by (auto simp: id_events_def)
    have t: "track_totals acc' k =
        (if k = ?id then Some ((case track_totals acc k of None \<Rightarrow> 0 | Some p \<Rightarrow> fst p) + ms_value item,
                               (case track_totals acc k of None \<Rightarrow> 0 | Some p \<Rightarrow> snd p) + 1)
         else track_totals acc k)"
      unfolding acc' by (auto simp: track_totals_def map_of_dict_upd split: option.splits)
    show ?thesis using IH by (auto simp: ev t)
  qed
qed

lemma unique_error_iff:
  "(\<exists>e. for_loop unique_body acc h = Inl e) \<longleftrightarrow>
     (\<exists>item \<in> set h. is_track_event item \<and> ms_played item = Null)"
proof (induction h arbitrary: acc)
  case Nil
  then show ?case by simp
next
  case (Cons item h)
  show ?case
    by (cases "ms_played item"; cases "is_track_event item")
       (simp_all add: unique_body_cases[of acc item] Cons.IH)
qed

lemma unique_error_type:
  "for_loop unique_body acc h = Inl e \<Longrightarrow> e = TypeError"
proof (induction h arbitrary: acc)
  case Nil
  then show ?case by simp
next
  case (Cons item h)
  then show ?case
    by (cases "ms_played item"; cases "is_track_event item")
       (auto simp: unique_body_cases[of acc item])
qed

lemma is_track_event_iff:
  "is_track_event item \<longleftrightarrow>
     (\<exists>u. spotify_track_uri item = Val u \<and> startswith u ''spotify:track:'')"
  by (cases "spotify_track_uri item") (auto simp: is_track_event_def Let_def startswith_def)

text \<open>
  C6. The aggregation either raises on both of two lists that are permutations of each
  other, or returns on both with the same \<^verbatim>\<open>ms_played\<close> and \<^verbatim>\<open>play_count\<close> for every
  track identifier: the sum and the number of the events of that identifier. The events
  whose URI is missing or does not start with \<^verbatim>\<open>spotify:track:\<close> can be removed from the
  input without changing the result.
\<close>

theorem unique_tracks_order_independent:
  "(mset h1 = mset h2 \<longrightarrow>
      map_sum id track_totals (extract_unique_tracks h1) =
      map_sum id track_totals (extract_unique_tracks h2)) \<and>
   extract_unique_tracks
     (filter (\<lambda>item. \<exists>u. spotify_track_uri item = Val u \<and> startswith u ''spotify:track:'') h) =
     extract_unique_tracks h \<and>
   (extract_unique_tracks h = Inr r \<longrightarrow>
      track_totals r k =
        (if id_events k h = [] then None
         else Some (sum_list (map ms_value (id_events k h)), int (length (id_events k h)))))"
proof (intro conjI impI)
  assume p: "mset h1 = mset h2"
  then have s: "set h1 = set h2" by (rule mset_eq_setD)
  show "map_sum id track_totals (extract_unique_tracks h1) =
      map_sum id track_totals (extract_unique_tracks h2)"
  proof (cases "extract_unique_tracks h1")
    case (Inl e1)
    then have "\<exists>item \<in> set h2. is_track_event item \<and> ms_played item = Null"
      using unique_error_iff[of "[]" h1] s by (auto simp: extract_unique_tracks_def)
    then obtain e2 where e2: "extract_unique_tracks h2 = Inl e2"
      using unique_error_iff[of "[]" h2] by (auto simp: extract_unique_tracks_def)
    from Inl e2 have "e1 = TypeError" "e2 = TypeError"
      using unique_error_type by (auto simp: extract_unique_tracks_def)
    with Inl e2 show ?thesis by simp
  next
    case (Inr r1)
    then have "\<not> (\<exists>item \<in> set h2. is_track_event item \<and> ms_played item = Null)"
      using unique_error_iff[of "[]" h1] s by (auto simp: extract_unique_tracks_def)
    then obtain r2 where r2: "extract_unique_tracks h2 = Inr r2"
      using unique_error_iff[of "[]" h2]
      by (cases "extract_unique_tracks h2") (auto simp: extract_unique_tracks_def)
    have "track_totals r1 k = track_totals r2 k" for k
      using unique_loop[OF Inr[unfolded extract_unique_tracks_def], of k]
        unique_loop[OF r2[unfolded extract_unique_tracks_def], of k]
        filter_perm_facts(1,2)[OF p] filter_perm_facts(3)[OF p, where f = ms_value]
      by (simp add: id_events_def track_totals_def)
    then have "track_totals r1 = track_totals r2" by (rule ext)
    with Inr r2 show ?thesis by simp
  qed
next
  have "(\<lambda>item. \<exists>u. spotify_track_uri item = Val u \<and> startswith u ''spotify:track:'') = is_track_event"
    by (rule ext) (simp add: is_track_event_iff)
  then show "extract_unique_tracks
     (filter (\<lambda>item. \<exists>u. spotify_track_uri item = Val u \<and> startswith u ''spotify:track:'') h) =
     extract_unique_tracks h"
    by (simp add: extract_unique_tracks_def for_loop_filter unique_body_def)
next
  assume "extract_unique_tracks h = Inr r"
  from unique_loop[OF this[unfolded extract_unique_tracks_def], of k]
  show "track_totals r k =
        (if id_events k h = [] then None
         else Some (sum_list (map ms_value (id_events k h)), int (length (id_events k h))))"
    by (simp add: track_totals_def)
qed

lemmas unique_eval = extract_unique_tracks_def unique_body_def is_track_event_def startswith_def
  track_id_of_def item_ms_def int_operand_def listen_def blank_def Let_def

theorem unique_tracks_order_independent_witness:
  "mset [listen ''spotify:track:a1'' ''One'' 1000, listen ''spotify:track:b2'' ''Two'' 500,
         listen ''spotify:track:a1'' ''Uno'' 2000, listen ''spotify:episode:c3'' ''Talk'' 9000] =
   mset [listen ''spotify:track:a1'' ''Uno'' 2000, listen ''spotify:episode:c3'' ''Talk'' 9000,
         listen ''spotify:track:b2'' ''Two'' 500, listen ''spotify:track:a1'' ''One'' 1000]
   \<and> extract_unique_tracks
        [listen ''spotify:track:a1'' ''One'' 1000, listen ''spotify:track:b2'' ''Two'' 500,
         listen ''spotify:track:a1'' ''Uno'' 2000, listen ''spotify:episode:c3'' ''Talk'' 9000] =
       Inr [(''a1'', \<lparr>ta_ms_played = 3000, ta_play_count = 2, ta_track_name = Some ''Uno'',
                     ta_artist_name = Some [], ta_album_name = Some []\<rparr>),
            (''b2'', \<lparr>ta_ms_played = 500, ta_play_count = 1, ta_track_name = Some ''Two'',
                     ta_artist_name = Some [], ta_album_name = Some []\<rparr>)]
   \<and> extract_unique_tracks
        [listen ''spotify:track:a1'' ''Uno'' 2000, listen ''spotify:episode:c3'' ''Talk'' 9000,
         listen ''spotify:track:b2'' ''Two'' 500, listen ''spotify:track:a1'' ''One'' 1000] =
       Inr [(''a1'', \<lparr>ta_ms_played = 3000, ta_play_count = 2, ta_track_name = Some ''One'',
                     ta_artist_name = Some [], ta_album_name = Some []\<rparr>),
            (''b2'', \<lparr>ta_ms_played = 500, ta_play_count = 1, ta_track_name = Some ''Two'',
                     ta_artist_name = Some [], ta_album_name = Some []\<rparr>)]
   \<and> map_sum id track_totals (extract_unique_tracks
        [listen ''spotify:track:a1'' ''One'' 1000, listen ''spotify:track:b2'' ''Two'' 500,
         listen ''spotify:track:a1'' ''Uno'' 2000, listen ''spotify:episode:c3'' ''Talk'' 9000]) =
       map_sum id track_totals (extract_unique_tracks
        [listen ''spotify:track:a1'' ''Uno'' 2000, listen ''spotify:episode:c3'' ''Talk'' 9000,
         listen ''spotify:track:b2'' ''Two'' 500, listen ''spotify:track:a1'' ''One'' 1000])"
proof -
  let ?h1 = "[listen ''spotify:track:a1'' ''One'' 1000, listen ''spotify:track:b2'' ''Two'' 500,
         listen ''spotify:track:a1'' ''Uno'' 2000, listen ''spotify:episode:c3'' ''Talk'' 9000]"
  let ?h2 = "[listen ''spotify:track:a1'' ''Uno'' 2000, listen ''spotify:episode:c3'' ''Talk'' 9000,
         listen ''spotify:track:b2'' ''Two'' 500, listen ''spotify:track:a1'' ''One'' 1000]"
  let ?r1 = "[(''a1'', \<lparr>ta_ms_played = 3000, ta_play_count = 2, ta_track_name = Some ''Uno'',
                     ta_artist_name = Some [], ta_album_name = Some []\<rparr>),
            (''b2'', \<lparr>ta_ms_played = 500, ta_play_count = 1, ta_track_name = Some ''Two'',
                     ta_artist_name = Some [], ta_album_name = Some []\<rparr>)]"
  have p: "mset ?h1 = mset ?h2" by (simp add: add_mset_commute)
  have e1: "extract_unique_tracks ?h1 = Inr ?r1" by (simp add: unique_eval)
  have e2: "extract_unique_tracks ?h2 =
       Inr [(''a1'', \<lparr>ta_ms_played = 3000, ta_play_count = 2, ta_track_name = Some ''One'',
                     ta_artist_name = Some [], ta_album_name = Some []\<rparr>),
            (''b2'', \<lparr>ta_ms_played = 500, ta_play_count = 1, ta_track_name = Some ''Two'',
                     ta_artist_name = Some [], ta_album_name = Some []\<rparr>)]"
    by (simp add: unique_eval)
  from unique_tracks_order_independent[of ?h1 ?h2 ?h1 ?r1 "''a1''"] p
  have "map_sum id track_totals (extract_unique_tracks ?h1) =
        map_sum id track_totals (extract_unique_tracks ?h2)" by blast
  with p e1 e2 show ?thesis by (intro conjI)
qed

section \<open>Catalog requests: failed and empty batches\<close>

lemma split_on_nonempty: "split_on c s \<noteq> []"
  by (induction s) (auto split: list.splits)

lemma split_on_no_sep: "c \<notin> set s \<Longrightarrow> split_on c s = [s]"
  by (induction s) auto

lemma split_on_append:
  "c \<notin> set a \<Longrightarrow> split_on c (a @ c # b) = a # split_on c b"
  by (induction a) auto

lemma split_join_comma:
  assumes "ids \<noteq> []" "\<forall>i \<in> set ids. CHR '','' \<notin> set i"
  shows "split_on CHR '','' (join_comma ids) = ids"
  using assms
proof (induction ids rule: join_comma.induct)
  case 1
  then show ?case by simp
next
  case (2 x)
  then show ?case by (simp add: split_on_no_sep)
next
  case (3 x y ys)
  then show ?case by (simp add: split_on_append)
qed

lemma batches_props: "\<forall>b \<in> set (batches xs). b \<noteq> [] \<and> length b \<le> 50"
proof (induction xs rule: batches.induct)
  case (1 xs)
  show ?case
  proof (cases "xs = []")
    case True
    then show ?thesis by (simp add: batches.simps)
  next
    case False
    with 1 show ?thesis by (subst batches.simps) auto
  qed
qed

lemma concat_batches: "concat (batches xs) = xs"
proof (induction xs rule: batches.induct)
  case (1 xs)
  show ?case
  proof (cases "xs = []")
    case True
    then show ?thesis by (simp add: batches.simps)
  next
    case False
    with 1 show ?thesis by (subst batches.simps) simp
  qed
qed

text \<open>
  C7. A batch with no identifiers returns the empty list and sends nothing. A batch whose
  request is answered with a status other than 200 returns the empty list without
  raising, and the loop of \<^verbatim>\<open>main\<close> goes on with the remaining batches, its collected
  records unchanged. Every request that a batch sends carries the first 50 identifiers at
  most, joined by commas; the batches that \<^verbatim>\<open>main\<close> cuts have between 1 and 50
  identifiers and together are the whole list.
\<close>

theorem failed_batch_yields_nothing:
  "fetch_tracks_batch service [] headers sent = (Inr [], sent) \<and>
   fetch_artists_batch service [] headers sent = (Inr [], sent) \<and>
   (ids \<noteq> [] \<and>
    status_code (service sent \<lparr>rq_url = ''https://api.spotify.com/v1/tracks'',
                                rq_ids = join_comma (take 50 ids), rq_headers = headers\<rparr>) \<noteq> 200 \<longrightarrow>
      fetch_tracks_batch service ids headers sent =
        (Inr [], sent @ [\<lparr>rq_url = ''https://api.spotify.com/v1/tracks'',
                          rq_ids = join_comma (take 50 ids), rq_headers = headers\<rparr>]) \<and>
      fetch_all_tracks service headers (ids # rest) all_track_data sent =
        fetch_all_tracks service headers rest all_track_data
          (sent @ [\<lparr>rq_url = ''https://api.spotify.com/v1/tracks'',
                    rq_ids = join_comma (take 50 ids), rq_headers = headers\<rparr>])) \<and>
   (ids \<noteq> [] \<and>
    status_code (service sent \<lparr>rq_url = ''https://api.spotify.com/v1/artists'',
                                rq_ids = join_comma (take 50 ids), rq_headers = headers\<rparr>) \<noteq> 200 \<longrightarrow>
      fetch_artists_batch service ids headers sent =
        (Inr [], sent @ [\<lparr>rq_url = ''https://api.spotify.com/v1/artists'',
                          rq_ids = join_comma (take 50 ids), rq_headers = headers\<rparr>])) \<and>
   (\<forall>rq \<in> set (snd (fetch_tracks_batch service ids headers sent))
              \<union> set (snd (fetch_artists_batch service ids headers sent)) - set sent.
      rq_ids rq = join_comma (take 50 ids) \<and> length (take 50 ids) \<le> 50 \<and>
      ((\<forall>i \<in> set ids. CHR '','' \<notin> set i) \<longrightarrow>
         length (split_on CHR '','' (rq_ids rq)) \<le> 50)) \<and>
   (\<forall>batch \<in> set (batches ids). batch \<noteq> [] \<and> length batch \<le> 50) \<and>
   concat (batches ids) = ids"
proof -
  have a: "fetch_tracks_batch service [] headers sent = (Inr [], sent)"
    "fetch_artists_batch service [] headers sent = (Inr [], sent)"
    by (simp_all add: fetch_tracks_batch_def fetch_artists_batch_def fetch_batch_def)
  have b: "fetch_tracks_batch service ids headers sent =
        (Inr [], sent @ [\<lparr>rq_url = ''https://api.spotify.com/v1/tracks'',
                          rq_ids = join_comma (take 50 ids), rq_headers = headers\<rparr>]) \<and>
      fetch_all_tracks service headers (ids # rest) all_track_data sent =
        fetch_all_tracks service headers rest all_track_data
          (sent @ [\<lparr>rq_url = ''https://api.spotify.com/v1/tracks'',
                    rq_ids = join_comma (take 50 ids), rq_headers = headers\<rparr>])"
    if "ids \<noteq> [] \<and>
    status_code (service sent \<lparr>rq_url = ''https://api.spotify.com/v1/tracks'',
                                rq_ids = join_comma (take 50 ids), rq_headers = headers\<rparr>) \<noteq> 200"
    using that by (simp add: fetch_tracks_batch_def fetch_batch_def Let_def)
  have c: "fetch_artists_batch service ids headers sent =
        (Inr [], sent @ [\<lparr>rq_url = ''https://api.spotify.com/v1/artists'',
                          rq_ids = join_comma (take 50 ids), rq_headers = headers\<rparr>])"
    if "ids \<noteq> [] \<and>
    status_code (service sent \<lparr>rq_url = ''https://api.spotify.com/v1/artists'',
                                rq_ids = join_comma (take 50 ids), rq_headers = headers\<rparr>) \<noteq> 200"
    using that by (simp add: fetch_artists_batch_def fetch_batch_def Let_def)
  have d: "rq_ids rq = join_comma (take 50 ids) \<and> length (take 50 ids) \<le> 50 \<and>
      ((\<forall>i \<in> set ids. CHR '','' \<notin> set i) \<longrightarrow>
         length (split_on CHR '','' (rq_ids rq)) \<le> 50)"
    if "rq \<in> set (snd (fetch_tracks_batch service ids headers sent))
              \<union> set (snd (fetch_artists_batch service ids headers sent)) - set sent" for rq
  proof -
    from that have ne: "ids \<noteq> []" and rq: "rq_ids rq = join_comma (take 50 ids)"
      by (auto simp: fetch_tracks_batch_def fetch_artists_batch_def fetch_batch_def Let_def
          split: if_splits)
    have "length (split_on CHR '','' (rq_ids rq)) \<le> 50" if "\<forall>i \<in> set ids. CHR '','' \<notin> set i"
    proof -
      have "take 50 ids \<noteq> []" using ne by (cases ids) simp_all
      moreover have "\<forall>i \<in> set (take 50 ids). CHR '','' \<notin> set i"
        using that by (auto dest: in_set_takeD)
      ultimately have "split_on CHR '','' (join_comma (take 50 ids)) = take 50 ids"
        by (rule split_join_comma)
      then show ?thesis by (simp add: rq)
    qed
    with rq show ?thesis by simp
  qed
  from a b c d batches_props[of ids] concat_batches[of ids] show ?thesis by blast
qed

theorem failed_batch_yields_nothing_witness:
  "[''a'', ''b''] \<noteq> ([] :: string list)
   \<and> status_code ((\<lambda>sent rq. \<lparr>status_code = 500, json = Inl ValueError\<rparr>) []
         \<lparr>rq_url = ''https://api.spotify.com/v1/tracks'', rq_ids = join_comma (take 50 [''a'', ''b'']),
          rq_headers = ()\<rparr> :: string response) \<noteq> 200
   \<and> fetch_tracks_batch (\<lambda>sent rq. \<lparr>status_code = 500, json = Inl ValueError\<rparr>)
         [''a'', ''b''] () [] =
       (Inr ([] :: string list),
        [\<lparr>rq_url = ''https://api.spotify.com/v1/tracks'', rq_ids = ''a,b'', rq_headers = ()\<rparr>])
   \<and> fetch_artists_batch (\<lambda>sent rq. \<lparr>status_code = 500, json = Inl ValueError\<rparr>)
         [''a'', ''b''] () [] =
       (Inr ([] :: string list),
        [\<lparr>rq_url = ''https://api.spotify.com/v1/artists'', rq_ids = ''a,b'', rq_headers = ()\<rparr>])
   \<and> fetch_all_tracks (\<lambda>sent rq. \<lparr>status_code = 500, json = Inl ValueError\<rparr>) ()
         [[''a'', ''b''], [''c'']] [] [] =
       (Inr ([] :: string list),
        [\<lparr>rq_url = ''https://api.spotify.com/v1/tracks'', rq_ids = ''a,b'', rq_headers = ()\<rparr>,
         \<lparr>rq_url = ''https://api.spotify.com/v1/tracks'', rq_ids = ''c'', rq_headers = ()\<rparr>])
   \<and> length (split_on CHR '','' ''a,b'') \<le> 50"
proof -
  let ?svc = "\<lambda>(sent :: unit request list) (rq :: unit request).
                \<lparr>status_code = 500, json = Inl ValueError :: py_error + (string \<Rightarrow> string list option)\<rparr>"
  have h: "[''a'', ''b''] \<noteq> ([] :: string list) \<and>
    status_code (?svc [] \<lparr>rq_url = ''https://api.spotify.com/v1/tracks'',
                           rq_ids = join_comma (take 50 [''a'', ''b'']), rq_headers = ()\<rparr>) \<noteq> 200"
    by simp
  have h': "[''a'', ''b''] \<noteq> ([] :: string list) \<and>
    status_code (?svc [] \<lparr>rq_url = ''https://api.spotify.com/v1/artists'',
                           rq_ids = join_comma (take 50 [''a'', ''b'']), rq_headers = ()\<rparr>) \<noteq> 200"
    by simp
  from failed_batch_yields_nothing[of ?svc "()" "[]" "[''a'', ''b'']" "[[''c'']]" "[]"] h h'
  have "fetch_tracks_batch ?svc [''a'', ''b''] () [] =
        (Inr [], [\<lparr>rq_url = ''https://api.spotify.com/v1/tracks'',
                   rq_ids = join_comma (take 50 [''a'', ''b'']), rq_headers = ()\<rparr>])"
    "fetch_artists_batch ?svc [''a'', ''b''] () [] =
        (Inr [], [\<lparr>rq_url = ''https://api.spotify.com/v1/artists'',
                   rq_ids = join_comma (take 50 [''a'', ''b'']), rq_headers = ()\<rparr>])"
    by simp_all
  then show ?thesis
    by (simp add: fetch_tracks_batch_def fetch_batch_def)
qed

section \<open>The composite key of tracks\<close>

text \<open>
  C9. Spec: two events contribute to the same entry of \<^verbatim>\<open>top_tracks\<close> and
  \<^verbatim>\<open>skipped_tracks\<close> if and only if they have the same track name and the same artist
  name. The code groups by the string \<^verbatim>\<open>f"{track}|||{artist}"\<close>, so two events with
  different names whose strings coincide are merged: here track \<^verbatim>\<open>a|||b\<close> by artist
  \<^verbatim>\<open>c\<close> and track \<^verbatim>\<open>a\<close> by artist \<^verbatim>\<open>b|||c\<close> make one entry with two plays, shown
  under the names of the later event.
\<close>

theorem track_key_collision:
  "calculate_top_tracks [play ''a|||b'' ''c'' 1000, play ''a'' ''b|||c'' 2000] 5 =
     Inr [\<lparr>tr_track = ''a'', tr_artist = ''b|||c'', tr_minutes = 0, tr_hours = Fin 0,
           tr_plays = 2, tr_pct = 100\<rparr>]
   \<and> fold skip_body [play ''a|||b'' ''c'' 1000, play ''a'' ''b|||c'' 2000] [] =
     [(''a|||b|||c'', \<lparr>ss_total_plays = 2, ss_skipped = 0, ss_name = ''a'',
                       ss_artist = ''b|||c''\<rparr>)]"
  by (simp add: top_eval skip_body_def is_skip_def)

section \<open>Peak hours: an input without timestamps\<close>

lemma peak_loop_no_ts:
  "\<forall>item \<in> set data. \<not> truthy (get (ts item)) \<Longrightarrow>
     for_loop (peak_body utc_to_pacific) hours data = Inr hours"
  by (induction data) (auto simp: peak_body_def split: option.splits)

lemma find_peak_hours_no_ts:
  "\<forall>item \<in> set data. \<not> truthy (get (ts item)) \<Longrightarrow>
     find_peak_hours utc_to_pacific data = Inl ValueError"
  by (simp add: find_peak_hours_def peak_loop_no_ts sorted_reverse_def py_min_def)

text \<open>
  C1. Spec: when no event carries a timestamp, \<^verbatim>\<open>find_peak_hours\<close> returns a result with
  \<^verbatim>\<open>peak_hour = 0\<close> and does not raise, and absent or null fields never make a metric
  function raise. The code computes the default \<open>0\<close> and then evaluates
  \<^verbatim>\<open>min(top_hours)\<close> on the empty list for the description, which raises
  \<^verbatim>\<open>ValueError\<close>: on the empty input, and on an input whose only event has a null
  timestamp, the function returns nothing, and neither does the job, which calls it first.
  A null \<^verbatim>\<open>ms_played\<close> makes the overview raise \<^verbatim>\<open>TypeError\<close>.
\<close>

theorem find_peak_hours_empty_raises:
  "find_peak_hours utc_to_pacific [] = Inl ValueError
   \<and> find_peak_hours utc_to_pacific [blank\<lparr>ts := Null\<rparr>] = Inl ValueError
   \<and> dashboard_data utc_to_pacific [] = Inl ValueError
   \<and> calculate_overview [blank\<lparr>ms_played := Null\<rparr>] = Inl TypeError"
  by (simp add: find_peak_hours_def peak_body_def sorted_reverse_def py_min_def
      dashboard_data_def blank_def calculate_overview_def add_ms_def item_ms_def
      int_operand_def)

section \<open>The metrics job: repeated runs\<close>























end
